theory Spec2Isabelle
  imports Main "HOL-Library.Word"
begin

section \<open>The machine: LP64, byte-addressed, little-endian\<close>

text \<open>
  The header \<^verbatim>\<open>lcl_array.h\<close> computes with \<^verbatim>\<open>size_t\<close> and with pointers to
  \<^verbatim>\<open>unsigned char\<close>. Both are 64 bits wide here (LP64), so
  \<^verbatim>\<open>sizeof(unsigned char *)\<close> and \<^verbatim>\<open>sizeof(unsigned char **)\<close> are 8.
  Arithmetic on \<^verbatim>\<open>size_t\<close> wraps modulo \<open>2 ^ 64\<close>, which is what \<open>64 word\<close> does.
  Pointer arithmetic is arithmetic on addresses in a flat address space, and it wraps the
  same way. Memory maps every address to a byte (\<^verbatim>\<open>CHAR_BIT == 8\<close> is required by the
  header); a pointer is stored in 8 consecutive bytes, least significant byte first.
\<close>

type_synonym size_t = "64 word"
type_synonym addr = "64 word"
type_synonym byte = "8 word"
type_synonym memory = "addr \<Rightarrow> byte"

definition sizeof_ptr :: size_t where
  "sizeof_ptr = 8"

primrec store_bytes :: "memory \<Rightarrow> addr \<Rightarrow> byte list \<Rightarrow> memory" where
  "store_bytes m a [] = m"
| "store_bytes m a (b # bs) = store_bytes (m(a := b)) (a + 1) bs"

primrec load_bytes :: "memory \<Rightarrow> addr \<Rightarrow> nat \<Rightarrow> byte list" where
  "load_bytes m a 0 = []"
| "load_bytes m a (Suc n) = m a # load_bytes m (a + 1) n"

definition ptr_bytes :: "addr \<Rightarrow> byte list" where
  "ptr_bytes p = map (\<lambda>i. ucast (drop_bit (8 * i) p)) [0..<8]"

primrec bytes_ptr :: "byte list \<Rightarrow> addr" where
  "bytes_ptr [] = 0"
| "bytes_ptr (b # bs) = ucast b + 256 * bytes_ptr bs"

definition store_ptr :: "memory \<Rightarrow> addr \<Rightarrow> addr \<Rightarrow> memory" where
  "store_ptr m a p = store_bytes m a (ptr_bytes p)"

definition load_ptr :: "memory \<Rightarrow> addr \<Rightarrow> addr" where
  "load_ptr m a = bytes_ptr (load_bytes m a 8)"

section \<open>The host allocator\<close>

text \<open>
  \<^verbatim>\<open>calloc\<close> belongs to the C library, not to the header. What it returns is the host's
  choice, so the returned address is an argument of the model: \<open>0\<close> is \<^verbatim>\<open>NULL\<close>.
  A successful \<^verbatim>\<open>calloc(nmemb, size)\<close> hands out a block of \<open>nmemb * size\<close> zero bytes.
  The world records the memory and every request made to the allocator, in order.
\<close>

record world =
  mem :: memory
  requests :: "(size_t \<times> size_t) list"

definition zero_fill :: "memory \<Rightarrow> addr \<Rightarrow> size_t \<Rightarrow> memory" where
  "zero_fill m p n = (\<lambda>a. if a - p < n then 0 else m a)"

definition calloc :: "addr \<Rightarrow> size_t \<Rightarrow> size_t \<Rightarrow> world \<Rightarrow> addr \<times> world" where
  "calloc host nmemb sz w =
     (host, \<lparr>mem = (if host = 0 then mem w else zero_fill (mem w) host (nmemb * sz)),
            requests = requests w @ [(nmemb, sz)]\<rparr>)"

text \<open>
  What a successful allocation of \<open>len\<close> bytes guarantees about the address: it is not
  \<^verbatim>\<open>NULL\<close>, and the block ends below the top of the address space, so that the address
  one past its last byte exists (as C requires of every object).
\<close>

definition host_block :: "addr \<Rightarrow> size_t \<Rightarrow> bool" where
  "host_block host len \<longleftrightarrow> host \<noteq> 0 \<and> unat host + unat len < 2 ^ 64"

section \<open>\<^verbatim>\<open>lcl_array2d_init\<close>\<close>

text \<open>
  The loop \<^verbatim>\<open>for (size_t row = 0; row < rows; row++) array[row] = rows_start + row * cols * type_size;\<close>
  started at counter \<open>row\<close>. \<^verbatim>\<open>array\<close> has type \<^verbatim>\<open>unsigned char **\<close>, so
  \<^verbatim>\<open>array[row]\<close> is the pointer slot at address \<open>array + sizeof_ptr * row\<close>.
\<close>

function lcl_array2d_init_loop ::
  "addr \<Rightarrow> addr \<Rightarrow> size_t \<Rightarrow> size_t \<Rightarrow> size_t \<Rightarrow> size_t \<Rightarrow> memory \<Rightarrow> memory" where
  "lcl_array2d_init_loop array rows_start rows cols type_size row m =
     (if row < rows
      then lcl_array2d_init_loop array rows_start rows cols type_size (row + 1)
             (store_ptr m (array + sizeof_ptr * row) (rows_start + row * cols * type_size))
      else m)"
  by pat_completeness auto
termination
proof (relation "measure (\<lambda>(array, rows_start, rows, cols, type_size, row, m). unat rows - unat row)")
  fix rows row :: size_t
  assume "row < rows"
  then have "unat rows - unat (row + 1) < unat rows - unat row"
    by unat_arith
  then show "\<And>array rows_start cols type_size m.
      ((array, rows_start, rows, cols, type_size, row + 1,
        store_ptr m (array + sizeof_ptr * row) (rows_start + row * cols * type_size)),
       (array, rows_start, rows, cols, type_size, row, m))
      \<in> measure (\<lambda>(array, rows_start, rows, cols, type_size, row, m). unat rows - unat row)"
    by simp
qed simp

text \<open>
  The function. \<open>host\<close> is the address the host allocator returns for the one request.
  The result is \<open>None\<close> for \<^verbatim>\<open>NULL\<close>, and \<open>Some array\<close> for the handle.
\<close>

definition lcl_array2d_init ::
  "addr \<Rightarrow> size_t \<Rightarrow> size_t \<Rightarrow> size_t \<Rightarrow> world \<Rightarrow> addr option \<times> world" where
  "lcl_array2d_init host rows cols type_size w =
     (let alloc_len = rows * sizeof_ptr + rows * cols * type_size;
          (array, w') = calloc host 1 alloc_len w
      in if array = 0 then (None, w')
         else
           let rows_start = array + sizeof_ptr * rows
           in (Some array,
               w'\<lparr>mem := lcl_array2d_init_loop array rows_start rows cols type_size 0 (mem w')\<rparr>))"

section \<open>\<^verbatim>\<open>lcl_array3d_init\<close>\<close>

text \<open>
  The first loop: \<^verbatim>\<open>array[layer] = rows_start + layer * rows\<close>. Here \<^verbatim>\<open>rows_start\<close> has
  type \<^verbatim>\<open>unsigned char **\<close>, so adding \<open>layer * rows\<close> to it advances the address by
  \<open>sizeof_ptr * (layer * rows)\<close>.
\<close>

function lcl_array3d_init_loop1 ::
  "addr \<Rightarrow> addr \<Rightarrow> size_t \<Rightarrow> size_t \<Rightarrow> size_t \<Rightarrow> memory \<Rightarrow> memory" where
  "lcl_array3d_init_loop1 array rows_start layers rows layer m =
     (if layer < layers
      then lcl_array3d_init_loop1 array rows_start layers rows (layer + 1)
             (store_ptr m (array + sizeof_ptr * layer) (rows_start + sizeof_ptr * (layer * rows)))
      else m)"
  by pat_completeness auto
termination
proof (relation "measure (\<lambda>(array, rows_start, layers, rows, layer, m). unat layers - unat layer)")
  fix layers layer :: size_t
  assume "layer < layers"
  then have "unat layers - unat (layer + 1) < unat layers - unat layer"
    by unat_arith
  then show "\<And>array rows_start rows m.
      ((array, rows_start, layers, rows, layer + 1,
        store_ptr m (array + sizeof_ptr * layer) (rows_start + sizeof_ptr * (layer * rows))),
       (array, rows_start, layers, rows, layer, m))
      \<in> measure (\<lambda>(array, rows_start, layers, rows, layer, m). unat layers - unat layer)"
    by simp
qed simp

text \<open>
  The inner loop of the second nest, for one \<open>layer\<close>:
  \<^verbatim>\<open>array[layer][row] = cols_start + type_size * (row + layer * rows) * cols\<close>.
  \<^verbatim>\<open>array[layer]\<close> is read from memory at every iteration; the slot written is
  \<open>sizeof_ptr * row\<close> bytes after the address read.
\<close>

function lcl_array3d_init_loop2_rows ::
  "addr \<Rightarrow> addr \<Rightarrow> size_t \<Rightarrow> size_t \<Rightarrow> size_t \<Rightarrow> size_t \<Rightarrow> size_t \<Rightarrow> memory \<Rightarrow> memory" where
  "lcl_array3d_init_loop2_rows array cols_start rows cols type_size layer row m =
     (if row < rows
      then lcl_array3d_init_loop2_rows array cols_start rows cols type_size layer (row + 1)
             (store_ptr m (load_ptr m (array + sizeof_ptr * layer) + sizeof_ptr * row)
                (cols_start + type_size * (row + layer * rows) * cols))
      else m)"
  by pat_completeness auto
termination
proof (relation "measure (\<lambda>(array, cols_start, rows, cols, type_size, layer, row, m). unat rows - unat row)")
  fix rows row :: size_t
  assume "row < rows"
  then have "unat rows - unat (row + 1) < unat rows - unat row"
    by unat_arith
  then show "\<And>array cols_start cols type_size layer m.
      ((array, cols_start, rows, cols, type_size, layer, row + 1,
        store_ptr m (load_ptr m (array + sizeof_ptr * layer) + sizeof_ptr * row)
          (cols_start + type_size * (row + layer * rows) * cols)),
       (array, cols_start, rows, cols, type_size, layer, row, m))
      \<in> measure (\<lambda>(array, cols_start, rows, cols, type_size, layer, row, m). unat rows - unat row)"
    by simp
qed simp

text \<open>The outer loop of the second nest, started at counter \<open>layer\<close>.\<close>

function lcl_array3d_init_loop2 ::
  "addr \<Rightarrow> addr \<Rightarrow> size_t \<Rightarrow> size_t \<Rightarrow> size_t \<Rightarrow> size_t \<Rightarrow> size_t \<Rightarrow> memory \<Rightarrow> memory" where
  "lcl_array3d_init_loop2 array cols_start layers rows cols type_size layer m =
     (if layer < layers
      then lcl_array3d_init_loop2 array cols_start layers rows cols type_size (layer + 1)
             (lcl_array3d_init_loop2_rows array cols_start rows cols type_size layer 0 m)
      else m)"
  by pat_completeness auto
termination
proof (relation "measure (\<lambda>(array, cols_start, layers, rows, cols, type_size, layer, m). unat layers - unat layer)")
  fix layers layer :: size_t
  assume "layer < layers"
  then have "unat layers - unat (layer + 1) < unat layers - unat layer"
    by unat_arith
  then show "\<And>array cols_start rows cols type_size m.
      ((array, cols_start, layers, rows, cols, type_size, layer + 1,
        lcl_array3d_init_loop2_rows array cols_start rows cols type_size layer 0 m),
       (array, cols_start, layers, rows, cols, type_size, layer, m))
      \<in> measure (\<lambda>(array, cols_start, layers, rows, cols, type_size, layer, m). unat layers - unat layer)"
    by simp
qed simp

definition lcl_array3d_init ::
  "addr \<Rightarrow> size_t \<Rightarrow> size_t \<Rightarrow> size_t \<Rightarrow> size_t \<Rightarrow> world \<Rightarrow> addr option \<times> world" where
  "lcl_array3d_init host layers rows cols type_size w =
     (let alloc_len = layers * sizeof_ptr + layers * rows * sizeof_ptr
                      + layers * rows * cols * type_size;
          (array, w') = calloc host 1 alloc_len w
      in if array = 0 then (None, w')
         else
           let rows_start = array + sizeof_ptr * layers;
               m1 = lcl_array3d_init_loop1 array rows_start layers rows 0 (mem w');
               cols_start = rows_start + layers * rows * sizeof_ptr;
               m2 = lcl_array3d_init_loop2 array cols_start layers rows cols type_size 0 m1
           in (Some array, w'\<lparr>mem := m2\<rparr>))"

section \<open>Subscripting the handle\<close>

text \<open>
  The header documents how the result is used: \<^verbatim>\<open>int **my_2d = ...; my_2d[0][2] = 1;\<close>
  and \<^verbatim>\<open>int ***my_3d = ...; my_3d[0][2][4] = 1;\<close>, with an element type whose
  \<^verbatim>\<open>sizeof\<close> is the \<^verbatim>\<open>type_size\<close> passed in. For a handle of type \<^verbatim>\<open>T **\<close>,
  \<^verbatim>\<open>handle[r]\<close> loads the pointer in slot \<open>r\<close>, and \<^verbatim>\<open>handle[r][c]\<close> is the object
  \<open>c\<close> elements after the address loaded. An element is read and written as
  \<open>type_size\<close> bytes.
\<close>

definition elem2d_addr :: "memory \<Rightarrow> addr \<Rightarrow> size_t \<Rightarrow> size_t \<Rightarrow> size_t \<Rightarrow> addr" where
  "elem2d_addr m handle type_size r c = load_ptr m (handle + sizeof_ptr * r) + type_size * c"

definition elem3d_addr ::
  "memory \<Rightarrow> addr \<Rightarrow> size_t \<Rightarrow> size_t \<Rightarrow> size_t \<Rightarrow> size_t \<Rightarrow> addr" where
  "elem3d_addr m handle type_size l r c =
     load_ptr m (load_ptr m (handle + sizeof_ptr * l) + sizeof_ptr * r) + type_size * c"

definition write_elem2d ::
  "memory \<Rightarrow> addr \<Rightarrow> size_t \<Rightarrow> size_t \<Rightarrow> size_t \<Rightarrow> byte list \<Rightarrow> memory" where
  "write_elem2d m handle type_size r c v = store_bytes m (elem2d_addr m handle type_size r c) v"

definition read_elem2d :: "memory \<Rightarrow> addr \<Rightarrow> size_t \<Rightarrow> size_t \<Rightarrow> size_t \<Rightarrow> byte list" where
  "read_elem2d m handle type_size r c =
     load_bytes m (elem2d_addr m handle type_size r c) (unat type_size)"

text \<open>A world to run examples in: all memory is zero and nothing was requested yet.\<close>

definition empty_world :: world where
  "empty_world = \<lparr>mem = (\<lambda>_. 0), requests = []\<rparr>"

section \<open>Auxiliary notions for the proofs\<close>

text \<open>
  Two pointer slots are apart when neither begins within the 8 bytes of the other.
\<close>

definition apart :: "addr \<Rightarrow> addr \<Rightarrow> bool" where
  "apart a b \<longleftrightarrow> 8 \<le> unat (b - a) \<and> 8 \<le> unat (a - b)"

text \<open>
  All three simple loops of the header have one shape: a counter runs from \<open>i\<close> up to
  \<open>n\<close>, and iteration \<open>i\<close> stores the pointer \<open>val i\<close> into the slot at
  \<open>slot i\<close>. The shape is stated once, without reference to the header, and each loop
  of the header is proved equal to an instance of it below.
\<close>

function store_loop ::
  "(size_t \<Rightarrow> addr) \<Rightarrow> (size_t \<Rightarrow> addr) \<Rightarrow> size_t \<Rightarrow> size_t \<Rightarrow> memory \<Rightarrow> memory" where
  "store_loop slot val n i m =
     (if i < n then store_loop slot val n (i + 1) (store_ptr m (slot i) (val i)) else m)"
  by pat_completeness auto
termination
proof (relation "measure (\<lambda>(slot, val, n, i, m). unat n - unat i)")
  fix n i :: size_t
  assume "i < n"
  then have "unat n - unat (i + 1) < unat n - unat i"
    by unat_arith
  then show "\<And>slot val m. ((slot, val, n, i + 1, store_ptr m (slot i) (val i)), (slot, val, n, i, m))
      \<in> measure (\<lambda>(slot, val, n, i, m). unat n - unat i)"
    by simp
qed simp

text \<open>
  Names for the layout of the 3D block, as offsets from the handle \<open>array\<close>: the slot of
  top-level pointer \<open>l\<close>, the slot of the second-level pointer of row \<open>r\<close> in layer
  \<open>l\<close>, the value the second nest stores there, and the state of memory in which every
  top-level slot holds the address of its layer's first row slot.
\<close>

definition top_slot :: "addr \<Rightarrow> size_t \<Rightarrow> addr" where
  "top_slot array l = array + sizeof_ptr * l"

definition row_slot :: "addr \<Rightarrow> size_t \<Rightarrow> size_t \<Rightarrow> size_t \<Rightarrow> size_t \<Rightarrow> addr" where
  "row_slot array layers rows l r =
     array + sizeof_ptr * layers + sizeof_ptr * (l * rows) + sizeof_ptr * r"

definition row_val :: "addr \<Rightarrow> size_t \<Rightarrow> size_t \<Rightarrow> size_t \<Rightarrow> size_t \<Rightarrow> size_t \<Rightarrow> addr" where
  "row_val cols_start rows cols type_size l r = cols_start + type_size * (r + l * rows) * cols"

definition tops_set :: "addr \<Rightarrow> size_t \<Rightarrow> size_t \<Rightarrow> memory \<Rightarrow> bool" where
  "tops_set array layers rows m \<longleftrightarrow>
     (\<forall>l. l < layers \<longrightarrow> load_ptr m (top_slot array l) = row_slot array layers rows l 0)"

text \<open>
  The loop equations unfold without end as rewrite rules; they are applied one step at
  a time instead.
\<close>

declare lcl_array2d_init_loop.simps [simp del]
declare lcl_array3d_init_loop1.simps [simp del]
declare lcl_array3d_init_loop2_rows.simps [simp del]
declare lcl_array3d_init_loop2.simps [simp del]
declare store_loop.simps [simp del]

section \<open>Bytes and pointers in memory\<close>

lemma unat_pred:
  fixes d :: addr
  shows "unat (d - 1) = (if d = 0 then 2 ^ 64 - 1 else unat d - 1)"
  by (simp add: unat_minus_one unsigned_minus_1_eq_mask mask_eq_exp_minus_1)

lemma unat_sub_succ:
  fixes x a :: addr
  shows "unat (x - (a + 1)) = (if x = a then 2 ^ 64 - 1 else unat (x - a) - 1)"
proof -
  have "x - (a + 1) = (x - a) - 1" by simp
  then have "unat (x - (a + 1)) = unat ((x - a) - 1)" by (rule arg_cong)
  also have "\<dots> = (if x - a = 0 then 2 ^ 64 - 1 else unat (x - a) - 1)"
    by (rule unat_pred)
  finally show ?thesis by simp
qed

lemma store_bytes_at:
  "length bs \<le> 2 ^ 64 \<Longrightarrow>
   store_bytes m a bs x = (if unat (x - a) < length bs then bs ! unat (x - a) else m x)"
proof (induction bs arbitrary: m a)
  case Nil
  then show ?case by simp
next
  case (Cons b bs)
  have len: "length bs < 2 ^ 64" using Cons.prems by simp
  then have ih: "store_bytes (m(a := b)) (a + 1) bs x
      = (if unat (x - (a + 1)) < length bs then bs ! unat (x - (a + 1)) else (m(a := b)) x)"
    by (intro Cons.IH) simp
  show ?case
  proof (cases "x = a")
    case True
    then have "unat (x - (a + 1)) = 2 ^ 64 - 1" unfolding unat_sub_succ by simp
    with len have "\<not> unat (x - (a + 1)) < length bs" by simp
    with ih True show ?thesis by simp
  next
    case False
    then have pos: "0 < unat (x - a)" by (simp add: unat_gt_0)
    from False have "unat (x - (a + 1)) = unat (x - a) - 1" unfolding unat_sub_succ by simp
    with pos False ih show ?thesis by (auto simp: nth_Cons')
  qed
qed

lemma load_bytes_nth:
  "i < n \<Longrightarrow> load_bytes m a n ! i = m (a + of_nat i)"
proof (induction n arbitrary: a i)
  case 0
  then show ?case by simp
next
  case (Suc n)
  then show ?case by (cases i) (simp_all add: add.assoc)
qed

lemma length_load_bytes: "length (load_bytes m a n) = n"
  by (induction n arbitrary: a) simp_all

lemma load_bytes_cong:
  assumes "\<And>i. i < n \<Longrightarrow> m (a + of_nat i) = m' (a + of_nat i)"
  shows "load_bytes m a n = load_bytes m' a n"
  by (rule nth_equalityI) (simp_all add: length_load_bytes load_bytes_nth assms)

lemma unat_offset: "i < 2 ^ 64 \<Longrightarrow> unat ((a + of_nat i) - a :: 64 word) = i"
  by (simp add: unat_of_nat)

lemma load_store_bytes:
  assumes "length bs \<le> 2 ^ 64"
  shows "load_bytes (store_bytes m a bs) a (length bs) = bs"
proof (rule nth_equalityI)
  show "length (load_bytes (store_bytes m a bs) a (length bs)) = length bs"
    by (simp add: length_load_bytes)
next
  fix i assume "i < length (load_bytes (store_bytes m a bs) a (length bs))"
  then have i: "i < length bs" by (simp add: length_load_bytes)
  with assms have "i < 2 ^ 64" by simp
  then have "unat ((a + of_nat i) - a) = i" by (rule unat_offset)
  with i assms show "load_bytes (store_bytes m a bs) a (length bs) ! i = bs ! i"
    by (simp add: load_bytes_nth store_bytes_at)
qed

lemma length_ptr_bytes: "length (ptr_bytes p) = 8"
  by (simp add: ptr_bytes_def)

lemma low_byte_plus_rest:
  "take_bit 8 (q :: 64 word) + 256 * take_bit n (drop_bit 8 q) = take_bit (8 + n) q"
proof -
  have "take_bit 8 q + push_bit 8 (take_bit n (drop_bit 8 q))
      = or (take_bit 8 q) (push_bit 8 (take_bit n (drop_bit 8 q)))"
    by (rule disjunctive_add) (auto simp: bit_simps)
  also have "\<dots> = take_bit (8 + n) q"
    by (rule bit_eqI) (auto simp: bit_simps)
  finally show ?thesis by (simp add: push_bit_eq_mult mult.commute)
qed

lemma ucast_byte_back: "(ucast (ucast (q :: 64 word) :: byte) :: 64 word) = take_bit 8 q"
  by (rule bit_eqI) (auto simp: bit_simps)

lemma bytes_ptr_slice:
  "bytes_ptr (map (\<lambda>i. ucast (drop_bit (8 * i) p)) [j..<j + k])
   = take_bit (8 * k) (drop_bit (8 * j) p)"
proof (induction k arbitrary: j)
  case 0
  then show ?case by simp
next
  case (Suc k)
  have "[j..<j + Suc k] = j # [Suc j..<Suc j + k]"
    by (simp add: upt_conv_Cons)
  then have "bytes_ptr (map (\<lambda>i. ucast (drop_bit (8 * i) p)) [j..<j + Suc k])
      = take_bit 8 (drop_bit (8 * j) p) + 256 * take_bit (8 * k) (drop_bit (8 * Suc j) p)"
    using Suc.IH [of "Suc j"] by (simp only: list.map bytes_ptr.simps ucast_byte_back)
  also have "drop_bit (8 * Suc j) p = drop_bit 8 (drop_bit (8 * j) p)"
    by (simp add: drop_bit_drop_bit add.commute)
  also have "take_bit 8 (drop_bit (8 * j) p)
        + 256 * take_bit (8 * k) (drop_bit 8 (drop_bit (8 * j) p))
     = take_bit (8 + 8 * k) (drop_bit (8 * j) p)"
    by (rule low_byte_plus_rest)
  finally show ?case
    by simp
qed

lemma bytes_ptr_bytes: "bytes_ptr (ptr_bytes p) = p"
proof -
  have "bytes_ptr (ptr_bytes p) = take_bit 64 p"
    using bytes_ptr_slice [of p 0 8] by (simp add: ptr_bytes_def)
  also have "\<dots> = p"
    by (rule bit_eqI) (auto simp: bit_simps dest: bit_imp_le_length)
  finally show ?thesis .
qed

lemma load_store_ptr: "load_ptr (store_ptr m a p) a = p"
proof -
  have "load_bytes (store_bytes m a (ptr_bytes p)) a (length (ptr_bytes p)) = ptr_bytes p"
    by (rule load_store_bytes) (simp add: length_ptr_bytes)
  then show ?thesis
    by (simp add: load_ptr_def store_ptr_def length_ptr_bytes bytes_ptr_bytes)
qed

lemma store_ptr_other: "8 \<le> unat (x - a) \<Longrightarrow> store_ptr m a p x = m x"
  by (simp add: store_ptr_def store_bytes_at length_ptr_bytes)


lemma load_ptr_cong:
  "(\<And>i. i < 8 \<Longrightarrow> m (a + of_nat i) = m' (a + of_nat i)) \<Longrightarrow> load_ptr m a = load_ptr m' a"
  unfolding load_ptr_def by (rule arg_cong [where f = bytes_ptr], rule load_bytes_cong)

lemma unat_swap_sub:
  fixes a b :: addr
  assumes "a \<noteq> b"
  shows "unat (a - b) = 2 ^ 64 - unat (b - a)"
proof -
  have ne: "unat a \<noteq> unat b" using assms by (simp add: word_unat_eq_iff)
  have la: "unat a < 2 ^ 64" and lb: "unat b < 2 ^ 64"
    using unsigned_less [of a] unsigned_less [of b] by simp_all
  show ?thesis
  proof (cases "unat a < unat b")
    case True
    with la lb show ?thesis by (simp add: unat_sub_if')
  next
    case False
    with ne have "unat b < unat a" by simp
    with la lb show ?thesis by (simp add: unat_sub_if')
  qed
qed

lemma apart_sym: "apart a b \<Longrightarrow> apart b a"
  by (simp add: apart_def)

lemma apart_byte:
  fixes a b :: addr
  assumes "apart a b" "i < 8"
  shows "8 \<le> unat (b + of_nat i - a)"
proof -
  from assms(1) have 1: "8 \<le> unat (b - a)" and 2: "8 \<le> unat (a - b)"
    by (simp_all add: apart_def)
  have ne: "a \<noteq> b" using 1 by auto
  then have "unat (a - b) = 2 ^ 64 - unat (b - a)" by (rule unat_swap_sub)
  with 2 have "unat (b - a) + 8 \<le> 2 ^ 64" by simp
  with assms(2) have lt: "unat (b - a) + i < 2 ^ 64" by simp
  have oi: "unat (of_nat i :: addr) = i" using assms(2) by (simp add: unat_of_nat)
  have "b + of_nat i - a = (b - a) + of_nat i" by simp
  then have "unat (b + of_nat i - a) = unat ((b - a) + of_nat i)" by (rule arg_cong)
  also have "\<dots> = unat (b - a) + i"
    using lt oi unat_add_lem [of "b - a" "of_nat i"] by simp
  finally show ?thesis using 1 by simp
qed

lemma load_ptr_store_other:
  "apart a b \<Longrightarrow> load_ptr (store_ptr m a p) b = load_ptr m b"
  by (rule load_ptr_cong) (simp add: store_ptr_other apart_byte)

lemma unat_offset_diff:
  fixes b :: addr
  assumes "i < 2 ^ 64" "j < 2 ^ 64"
  shows "unat ((b + of_nat j) - (b + of_nat i)) = (if i \<le> j then j - i else 2 ^ 64 + j - i)"
proof -
  have ui: "unat (of_nat i :: addr) = i" and uj: "unat (of_nat j :: addr) = j"
    using assms by (simp_all add: unat_of_nat)
  have "(b + of_nat j) - (b + of_nat i) = (of_nat j :: addr) - of_nat i" by simp
  then have "unat ((b + of_nat j) - (b + of_nat i)) = unat ((of_nat j :: addr) - of_nat i)"
    by (rule arg_cong)
  also have "\<dots> = (if i \<le> j then j - i else j + 2 ^ 64 - i)"
    using ui uj by (simp add: unat_sub_if')
  also have "\<dots> = (if i \<le> j then j - i else 2 ^ 64 + j - i)"
    by (simp only: add.commute [of j])
  finally show ?thesis .
qed

lemma offsets_apart:
  fixes b :: addr
  assumes "i + 8 \<le> j" "j + 8 \<le> 2 ^ 64"
  shows "apart (b + of_nat i) (b + of_nat j)"
proof -
  from assms have "unat ((b + of_nat j) - (b + of_nat i)) = j - i"
    using unat_offset_diff [of i j b] by simp
  moreover from assms have "unat ((b + of_nat i) - (b + of_nat j)) = 2 ^ 64 + i - j"
    using unat_offset_diff [of j i b] by simp
  ultimately show ?thesis
    using assms unfolding apart_def by linarith
qed

lemma offset_outside:
  fixes b :: addr
  assumes "i + 8 \<le> 2 ^ 64" "j < 2 ^ 64" "j < i \<or> i + 8 \<le> j"
  shows "8 \<le> unat ((b + of_nat j) - (b + of_nat i))"
  using assms unat_offset_diff [of i j b] by auto

subsection \<open>The loop of pointer stores\<close>

lemma word_succ_le: "(i :: size_t) < n \<Longrightarrow> i + 1 \<le> r \<Longrightarrow> i \<le> r \<and> i \<noteq> r"
  by unat_arith

lemma word_le_succ: "(i :: size_t) < n \<Longrightarrow> i \<le> r \<Longrightarrow> i \<noteq> r \<Longrightarrow> i + 1 \<le> r"
  by unat_arith

lemma store_loop_frame:
  "(\<And>r. i \<le> r \<Longrightarrow> r < n \<Longrightarrow> 8 \<le> unat (x - slot r)) \<Longrightarrow> store_loop slot val n i m x = m x"
proof (induction slot val n i m rule: store_loop.induct)
  case (1 slot val n i m)
  show ?case
  proof (cases "i < n")
    case True
    have "store_loop slot val n (i + 1) (store_ptr m (slot i) (val i)) x
        = store_ptr m (slot i) (val i) x"
      using True "1.prems" by (intro "1.IH") (auto dest: word_succ_le)
    also have "\<dots> = m x"
      using True "1.prems" [of i] by (simp add: store_ptr_other)
    finally show ?thesis using True by (subst store_loop.simps) simp
  next
    case False
    then show ?thesis by (subst store_loop.simps) simp
  qed
qed

lemma store_loop_load_frame:
  assumes "\<And>r. i \<le> r \<Longrightarrow> r < n \<Longrightarrow> apart (slot r) a"
  shows "load_ptr (store_loop slot val n i m) a = load_ptr m a"
  by (rule load_ptr_cong, rule store_loop_frame) (simp add: assms apart_byte)

lemma store_loop_value:
  assumes "\<And>r r'. r < n \<Longrightarrow> r' < n \<Longrightarrow> r \<noteq> r' \<Longrightarrow> apart (slot r) (slot r')"
    and "i \<le> r" "r < n"
  shows "load_ptr (store_loop slot val n i m) (slot r) = val r"
  using assms
proof (induction slot val n i m rule: store_loop.induct)
  case (1 slot val n i m)
  from "1.prems" have lt: "i < n" by (auto intro: order.strict_trans1)
  let ?m' = "store_ptr m (slot i) (val i)"
  have unf: "store_loop slot val n i m = store_loop slot val n (i + 1) ?m'"
    using lt by (subst store_loop.simps) simp
  show ?case
  proof (cases "r = i")
    case True
    have "load_ptr (store_loop slot val n (i + 1) ?m') (slot i) = load_ptr ?m' (slot i)"
    proof (rule store_loop_load_frame)
      fix r' assume "i + 1 \<le> r'" "r' < n"
      with lt have "r' \<noteq> i" by (auto dest: word_succ_le)
      with \<open>r' < n\<close> lt show "apart (slot r') (slot i)" by (intro "1.prems"(1))
    qed
    with True unf show ?thesis by (simp add: load_store_ptr)
  next
    case False
    with "1.prems" lt have "i + 1 \<le> r" by (intro word_le_succ) auto
    with lt "1.prems" have "load_ptr (store_loop slot val n (i + 1) ?m') (slot r) = val r"
      by (intro "1.IH") auto
    with unf show ?thesis by simp
  qed
qed


subsection \<open>Offsets from the block start\<close>

lemma unat_base_offset:
  fixes b :: addr
  assumes "unat b + k < 2 ^ 64"
  shows "unat (b + of_nat k) = unat b + k"
proof -
  from assms have "k < 2 ^ 64" by simp
  then have "unat (of_nat k :: addr) = k" by (simp add: unat_of_nat)
  with assms show ?thesis
    using unat_add_lem [of b "of_nat k"] by simp
qed

lemma unat_at_offset:
  fixes b :: addr
  shows "x = b + of_nat k \<Longrightarrow> unat b + k < 2 ^ 64 \<Longrightarrow> unat x = unat b + k"
  by (simp add: unat_base_offset)

lemma slot_offset: "(a :: addr) + sizeof_ptr * r = a + of_nat (8 * unat r)"
  by (simp add: sizeof_ptr_def)

lemma slots_apart:
  assumes "8 * unat n \<le> 2 ^ 64" "r < n" "r' < n" "r \<noteq> r'"
  shows "apart (a + sizeof_ptr * r) (a + sizeof_ptr * r')"
proof -
  from assms(2,3) have b: "unat r < unat n" "unat r' < unat n"
    by (simp_all add: word_less_nat_alt)
  from assms(4) have ne: "unat r \<noteq> unat r'" by (simp add: word_unat_eq_iff)
  show ?thesis
  proof (cases "unat r < unat r'")
    case True
    with b assms(1) show ?thesis
      unfolding slot_offset by (intro offsets_apart) simp_all
  next
    case False
    with ne have "unat r' < unat r" by simp
    with b assms(1) have "apart (a + of_nat (8 * unat r')) (a + of_nat (8 * unat r))"
      by (intro offsets_apart) simp_all
    then show ?thesis unfolding slot_offset by (rule apart_sym)
  qed
qed

lemma index2_less: "r < R \<Longrightarrow> c < C \<Longrightarrow> r * C + c < R * (C :: nat)"
proof -
  assume "r < R" "c < C"
  then have "r * C + c < r * C + C" by simp
  also have "\<dots> = Suc r * C" by simp
  also have "\<dots> \<le> R * C" using \<open>r < R\<close> by (intro mult_le_mono1) simp
  finally show ?thesis .
qed

lemma index2_inj:
  assumes "c < C" "c' < C" "r * C + c = r' * C + (c' :: nat)"
  shows "r = r' \<and> c = c'"
proof -
  from assms have "(r * C + c) div C = (r' * C + c') div C" by simp
  with assms(1,2) have "r = r'" by simp
  with assms(3) show ?thesis by simp
qed

section \<open>Properties of \<^verbatim>\<open>lcl_array2d_init\<close>\<close>

lemma lcl_array2d_init_loop_eq:
  "lcl_array2d_init_loop array rows_start rows cols type_size row m
   = store_loop (\<lambda>r. array + sizeof_ptr * r) (\<lambda>r. rows_start + r * cols * type_size) rows row m"
proof (induction array rows_start rows cols type_size row m rule: lcl_array2d_init_loop.induct)
  case (1 array rows_start rows cols type_size row m)
  show ?case
  proof (cases "row < rows")
    case True
    with "1.IH" show ?thesis
      by (subst lcl_array2d_init_loop.simps, subst store_loop.simps) simp
  next
    case False
    then show ?thesis
      by (subst lcl_array2d_init_loop.simps, subst store_loop.simps) simp
  qed
qed


lemma lcl_array2d_init_handle:
  "host \<noteq> 0 \<Longrightarrow> lcl_array2d_init host rows cols type_size w
   = (Some host,
      \<lparr>mem = store_loop (\<lambda>r. host + sizeof_ptr * r)
               (\<lambda>r. host + sizeof_ptr * rows + r * cols * type_size) rows 0
               (zero_fill (mem w) host (rows * sizeof_ptr + rows * cols * type_size)),
       requests = requests w @ [(1, rows * sizeof_ptr + rows * cols * type_size)]\<rparr>)"
  by (simp add: lcl_array2d_init_def calloc_def lcl_array2d_init_loop_eq Let_def)

lemma row_pointer_2d:
  assumes fit: "8 * unat rows \<le> 2 ^ 64" and "host \<noteq> 0" and "r < rows"
  shows "load_ptr (mem (snd (lcl_array2d_init host rows cols type_size w))) (host + sizeof_ptr * r)
       = host + sizeof_ptr * rows + r * cols * type_size"
proof -
  let ?slot = "\<lambda>r. host + sizeof_ptr * r"
  let ?val = "\<lambda>r. host + sizeof_ptr * rows + r * cols * type_size"
  have "load_ptr (store_loop ?slot ?val rows 0 m0) (?slot r) = ?val r" for m0
  proof (rule store_loop_value)
    fix q q' assume "q < rows" "q' < rows" "q \<noteq> q'"
    with fit show "apart (host + sizeof_ptr * q) (host + sizeof_ptr * q')"
      by (rule slots_apart)
  qed (use assms in simp_all)
  then show ?thesis
    by (simp add: lcl_array2d_init_handle [OF assms(2)])
qed


lemma unat_alloc_len_2d:
  assumes "8 * unat rows + unat rows * unat cols * unat type_size < 2 ^ 64"
  shows "unat (rows * sizeof_ptr + rows * cols * type_size)
       = 8 * unat rows + unat rows * unat cols * unat type_size"
proof -
  have "rows * sizeof_ptr + rows * cols * type_size
      = (of_nat (8 * unat rows + unat rows * unat cols * unat type_size) :: size_t)"
    by (simp add: sizeof_ptr_def)
  then show ?thesis using assms by (simp only: unat_of_nat) simp
qed

text \<open>
  Claim C1. When the total size \<open>rows * 8 + rows * cols * type_size\<close> does not overflow
  and the host allocation succeeds, \<^verbatim>\<open>lcl_array2d_init\<close> returns the handle, and for
  every row index \<open>r < rows\<close> slot \<open>r\<close> of the pointer table holds the address
  \<open>data_start + r * cols * type_size\<close>, where \<open>data_start = handle + 8 * rows\<close> is the
  first byte after the \<open>rows\<close> pointer slots. Nothing wraps: as numbers, the row pointer
  is \<open>handle + 8 * rows + r * cols * type_size\<close>, and \<^verbatim>\<open>handle[r][c]\<close> is at
  \<open>data_start + (r * cols + c) * type_size\<close>, the place of element \<open>(r, c)\<close> in a row-major
  flat array.
\<close>

theorem lcl_array2d_init_row_pointers:
  assumes no_overflow: "8 * unat rows + unat rows * unat cols * unat type_size < 2 ^ 64"
    and host: "host_block host (rows * sizeof_ptr + rows * cols * type_size)"
    and r: "r < rows"
  shows "fst (lcl_array2d_init host rows cols type_size w) = Some host \<and>
     load_ptr (mem (snd (lcl_array2d_init host rows cols type_size w))) (host + sizeof_ptr * r)
       = host + sizeof_ptr * rows + r * cols * type_size \<and>
     unat (host + sizeof_ptr * rows) = unat host + 8 * unat rows \<and>
     unat (host + sizeof_ptr * rows + r * cols * type_size)
       = unat host + 8 * unat rows + unat r * unat cols * unat type_size \<and>
     (\<forall>c. c < cols \<longrightarrow>
        unat (elem2d_addr (mem (snd (lcl_array2d_init host rows cols type_size w)))
                host type_size r c)
        = unat host + 8 * unat rows + (unat r * unat cols + unat c) * unat type_size)"
proof -
  let ?R = "unat rows" and ?C = "unat cols" and ?T = "unat type_size"
  let ?m = "mem (snd (lcl_array2d_init host rows cols type_size w))"
  from host have h0: "host \<noteq> 0"
    and top: "unat host + (8 * ?R + ?R * ?C * ?T) < 2 ^ 64"
    by (simp_all add: host_block_def unat_alloc_len_2d [OF no_overflow])
  from r have rR: "unat r < ?R" by (simp add: word_less_nat_alt)
  from no_overflow have fit: "8 * ?R \<le> 2 ^ 64" by simp
  have ptr: "load_ptr ?m (host + sizeof_ptr * r) = host + sizeof_ptr * rows + r * cols * type_size"
    using fit h0 r by (rule row_pointer_2d)
  have start: "unat (host + sizeof_ptr * rows) = unat host + 8 * ?R"
  proof (rule unat_at_offset)
    show "host + sizeof_ptr * rows = host + of_nat (8 * ?R)" by (rule slot_offset)
    show "unat host + 8 * ?R < 2 ^ 64" using top by linarith
  qed
  have le_row: "unat r * ?C * ?T \<le> ?R * ?C * ?T"
    using rR by (intro mult_le_mono1) simp
  have row: "unat (host + sizeof_ptr * rows + r * cols * type_size)
      = unat host + (8 * ?R + unat r * ?C * ?T)"
  proof (rule unat_at_offset)
    show "host + sizeof_ptr * rows + r * cols * type_size
        = host + of_nat (8 * ?R + unat r * ?C * ?T)"
      by (simp add: sizeof_ptr_def)
    show "unat host + (8 * ?R + unat r * ?C * ?T) < 2 ^ 64"
      using top le_row by linarith
  qed
  have elem: "unat (elem2d_addr ?m host type_size r c)
      = unat host + (8 * ?R + (unat r * ?C + unat c) * ?T)" if c: "c < cols" for c
  proof (rule unat_at_offset)
    from c have "unat c < ?C" by (simp add: word_less_nat_alt)
    with rR have "unat r * ?C + unat c < ?R * ?C" by (rule index2_less)
    then have le: "(unat r * ?C + unat c) * ?T \<le> ?R * ?C * ?T"
      by (intro mult_le_mono1) simp
    show "elem2d_addr ?m host type_size r c
        = host + of_nat (8 * ?R + (unat r * ?C + unat c) * ?T)"
      unfolding elem2d_addr_def ptr by (simp add: sizeof_ptr_def algebra_simps)
    show "unat host + (8 * ?R + (unat r * ?C + unat c) * ?T) < 2 ^ 64"
      using top le by linarith
  qed
  have "fst (lcl_array2d_init host rows cols type_size w) = Some host"
    by (simp add: lcl_array2d_init_handle [OF h0])
  with ptr start row elem show ?thesis by (simp only: add.assoc) blast
qed

theorem lcl_array2d_init_row_pointers_witness:
  "8 * unat (2 :: size_t) + unat (2 :: size_t) * unat (3 :: size_t) * unat (4 :: size_t) < 2 ^ 64 \<and>
   host_block 4096 (2 * sizeof_ptr + 2 * 3 * 4) \<and> (1 :: size_t) < 2 \<and>
   fst (lcl_array2d_init 4096 2 3 4 empty_world) = Some 4096 \<and>
   load_ptr (mem (snd (lcl_array2d_init 4096 2 3 4 empty_world))) (4096 + sizeof_ptr * 1)
     = 4096 + sizeof_ptr * 2 + 1 * 3 * 4 \<and>
   unat (elem2d_addr (mem (snd (lcl_array2d_init 4096 2 3 4 empty_world))) 4096 4 1 2) = 4132"
proof -
  have a: "8 * unat (2 :: size_t) + unat (2 :: size_t) * unat (3 :: size_t) * unat (4 :: size_t) < 2 ^ 64"
    by simp
  have b: "host_block 4096 (2 * sizeof_ptr + 2 * 3 * 4)"
    by (simp add: host_block_def sizeof_ptr_def)
  have c: "(1 :: size_t) < 2" by simp
  have d: "(2 :: size_t) < 3" by simp
  from lcl_array2d_init_row_pointers [OF a b c, of empty_world] d
  have "fst (lcl_array2d_init 4096 2 3 4 empty_world) = Some 4096"
    and "load_ptr (mem (snd (lcl_array2d_init 4096 2 3 4 empty_world))) (4096 + sizeof_ptr * 1)
     = 4096 + sizeof_ptr * 2 + 1 * 3 * 4"
    and "unat (elem2d_addr (mem (snd (lcl_array2d_init 4096 2 3 4 empty_world))) 4096 4 1 2)
     = unat (4096 :: size_t) + 8 * unat (2 :: size_t)
       + (unat (1 :: size_t) * unat (3 :: size_t) + unat (2 :: size_t)) * unat (4 :: size_t)"
    by blast+
  with a b c show ?thesis by simp
qed

section \<open>Properties of \<^verbatim>\<open>lcl_array3d_init\<close>\<close>

lemma slot_fits: "k < n \<Longrightarrow> D + 8 * n \<le> E \<Longrightarrow> D + 8 * k + 8 \<le> (E :: nat)"
  by linarith

lemma slot_before: "k < k' \<Longrightarrow> D + 8 * k + 8 \<le> D + 8 * (k' :: nat)"
  by linarith

lemma top_slot_offset: "top_slot array l = array + of_nat (8 * unat l)"
  by (simp add: top_slot_def sizeof_ptr_def)

lemma row_slot_offset:
  "row_slot array layers rows l r
   = array + of_nat (8 * unat layers + 8 * (unat l * unat rows + unat r))"
  by (simp add: row_slot_def sizeof_ptr_def algebra_simps)

lemma row_slot_step: "row_slot array layers rows l r = row_slot array layers rows l 0 + sizeof_ptr * r"
  by (simp add: row_slot_def)

lemma row_index_bound:
  assumes "l < layers" "r < rows"
  shows "unat l * unat rows + unat r < unat layers * unat rows"
  using assms by (intro index2_less) (simp_all add: word_less_nat_alt)

lemma row_slot_top_apart:
  assumes fit: "8 * unat layers + 8 * (unat layers * unat rows) \<le> 2 ^ 64"
    and "l < layers" "r < rows" "l' < layers"
  shows "apart (row_slot array layers rows l r) (top_slot array l')"
proof -
  have k: "unat l * unat rows + unat r < unat layers * unat rows"
    using assms(2,3) by (rule row_index_bound)
  have l': "unat l' < unat layers" using assms(4) by (simp add: word_less_nat_alt)
  have "apart (array + of_nat (8 * unat l'))
          (array + of_nat (8 * unat layers + 8 * (unat l * unat rows + unat r)))"
  proof (rule offsets_apart)
    have "8 * unat l' + 8 \<le> 8 * unat layers" using l' by linarith
    then show "8 * unat l' + 8 \<le> 8 * unat layers + 8 * (unat l * unat rows + unat r)"
      by (rule trans_le_add1)
    show "8 * unat layers + 8 * (unat l * unat rows + unat r) + 8 \<le> 2 ^ 64"
      using k fit by (rule slot_fits)
  qed
  then show ?thesis
    unfolding top_slot_offset row_slot_offset by (rule apart_sym)
qed

lemma row_slots_apart:
  assumes fit: "8 * unat layers + 8 * (unat layers * unat rows) \<le> 2 ^ 64"
    and "l < layers" "r < rows" "l' < layers" "r' < rows" "l \<noteq> l' \<or> r \<noteq> r'"
  shows "apart (row_slot array layers rows l r) (row_slot array layers rows l' r')"
proof -
  let ?k = "unat l * unat rows + unat r" and ?k' = "unat l' * unat rows + unat r'"
  have k: "?k < unat layers * unat rows" using assms(2,3) by (rule row_index_bound)
  have k': "?k' < unat layers * unat rows" using assms(4,5) by (rule row_index_bound)
  have "?k \<noteq> ?k'"
  proof
    assume "?k = ?k'"
    moreover have "unat r < unat rows" "unat r' < unat rows"
      using assms(3,5) by (simp_all add: word_less_nat_alt)
    ultimately have "unat l = unat l' \<and> unat r = unat r'"
      by (intro index2_inj [where C = "unat rows"])
    with assms(6) show False by (simp add: word_unat_eq_iff)
  qed
  then consider "?k < ?k'" | "?k' < ?k" by linarith
  then show ?thesis
  proof cases
    case 1
    have "apart (array + of_nat (8 * unat layers + 8 * ?k))
            (array + of_nat (8 * unat layers + 8 * ?k'))"
      using 1 k' fit by (intro offsets_apart slot_before slot_fits)
    then show ?thesis unfolding row_slot_offset .
  next
    case 2
    have "apart (array + of_nat (8 * unat layers + 8 * ?k'))
            (array + of_nat (8 * unat layers + 8 * ?k))"
      using 2 k fit by (intro offsets_apart slot_before slot_fits)
    then show ?thesis unfolding row_slot_offset by (rule apart_sym)
  qed
qed

lemma lcl_array3d_init_loop1_eq:
  "lcl_array3d_init_loop1 array rows_start layers rows layer m
   = store_loop (\<lambda>l. array + sizeof_ptr * l) (\<lambda>l. rows_start + sizeof_ptr * (l * rows))
       layers layer m"
proof (induction array rows_start layers rows layer m rule: lcl_array3d_init_loop1.induct)
  case (1 array rows_start layers rows layer m)
  show ?case
  proof (cases "layer < layers")
    case True
    with "1.IH" show ?thesis
      by (subst lcl_array3d_init_loop1.simps, subst store_loop.simps) simp
  next
    case False
    then show ?thesis
      by (subst lcl_array3d_init_loop1.simps, subst store_loop.simps) simp
  qed
qed

lemma lcl_array3d_init_loop2_rows_eq:
  assumes "load_ptr m (array + sizeof_ptr * layer) = q"
    and "\<And>r. row \<le> r \<Longrightarrow> r < rows \<Longrightarrow> apart (q + sizeof_ptr * r) (array + sizeof_ptr * layer)"
  shows "lcl_array3d_init_loop2_rows array cols_start rows cols type_size layer row m
       = store_loop (\<lambda>r. q + sizeof_ptr * r)
           (\<lambda>r. cols_start + type_size * (r + layer * rows) * cols) rows row m"
  using assms
proof (induction array cols_start rows cols type_size layer row m
        rule: lcl_array3d_init_loop2_rows.induct)
  case (1 array cols_start rows cols type_size layer row m)
  show ?case
  proof (cases "row < rows")
    case True
    let ?m' = "store_ptr m (q + sizeof_ptr * row)
                 (cols_start + type_size * (row + layer * rows) * cols)"
    have "apart (q + sizeof_ptr * row) (array + sizeof_ptr * layer)"
      using True by (intro "1.prems"(2)) simp_all
    then have q': "load_ptr ?m' (array + sizeof_ptr * layer) = q"
      using "1.prems"(1) by (simp add: load_ptr_store_other)
    have ap': "apart (q + sizeof_ptr * r) (array + sizeof_ptr * layer)"
      if "row + 1 \<le> r" "r < rows" for r
      using that True by (intro "1.prems"(2)) (auto dest: word_succ_le)
    have m': "store_ptr m (load_ptr m (array + sizeof_ptr * layer) + sizeof_ptr * row)
                (cols_start + type_size * (row + layer * rows) * cols) = ?m'"
      by (simp only: "1.prems"(1))
    have "lcl_array3d_init_loop2_rows array cols_start rows cols type_size layer (row + 1) ?m'
        = store_loop (\<lambda>r. q + sizeof_ptr * r)
           (\<lambda>r. cols_start + type_size * (r + layer * rows) * cols) rows (row + 1) ?m'"
      using "1.IH" [OF True, unfolded m', OF q' ap'] .
    with True "1.prems"(1) show ?thesis
      by (subst lcl_array3d_init_loop2_rows.simps, subst store_loop.simps) simp
  next
    case False
    then show ?thesis
      by (subst lcl_array3d_init_loop2_rows.simps, subst store_loop.simps) simp
  qed
qed


lemma inner_loop_eq:
  assumes fit: "8 * unat layers + 8 * (unat layers * unat rows) \<le> 2 ^ 64"
    and tops: "tops_set array layers rows m" and l: "l < layers"
  shows "lcl_array3d_init_loop2_rows array cols_start rows cols type_size l 0 m
       = store_loop (row_slot array layers rows l) (row_val cols_start rows cols type_size l)
           rows 0 m"
proof -
  let ?q = "row_slot array layers rows l 0"
  have slot: "(\<lambda>r. ?q + sizeof_ptr * r) = row_slot array layers rows l"
    by (rule ext) (rule row_slot_step [symmetric])
  have val: "(\<lambda>r. cols_start + type_size * (r + l * rows) * cols)
      = row_val cols_start rows cols type_size l"
    by (rule ext) (simp add: row_val_def)
  have "lcl_array3d_init_loop2_rows array cols_start rows cols type_size l 0 m
      = store_loop (\<lambda>r. ?q + sizeof_ptr * r)
          (\<lambda>r. cols_start + type_size * (r + l * rows) * cols) rows 0 m"
  proof (rule lcl_array3d_init_loop2_rows_eq)
    show "load_ptr m (array + sizeof_ptr * l) = ?q"
      using tops l by (simp add: tops_set_def top_slot_def)
    fix r assume "r < rows"
    with fit l have "apart (row_slot array layers rows l r) (top_slot array l)"
      by (intro row_slot_top_apart)
    then show "apart (?q + sizeof_ptr * r) (array + sizeof_ptr * l)"
      by (simp only: row_slot_step [symmetric] top_slot_def)
  qed
  then show ?thesis by (simp only: slot val)
qed

lemma inner_loop_tops:
  assumes fit: "8 * unat layers + 8 * (unat layers * unat rows) \<le> 2 ^ 64"
    and tops: "tops_set array layers rows m" and l: "l < layers"
  shows "tops_set array layers rows
           (lcl_array3d_init_loop2_rows array cols_start rows cols type_size l 0 m)"
  unfolding tops_set_def inner_loop_eq [OF assms]
proof (intro allI impI)
  fix l' assume l': "l' < layers"
  have "load_ptr (store_loop (row_slot array layers rows l)
          (row_val cols_start rows cols type_size l) rows 0 m) (top_slot array l')
      = load_ptr m (top_slot array l')"
    using fit l l' by (intro store_loop_load_frame row_slot_top_apart)
  with tops l' show "load_ptr (store_loop (row_slot array layers rows l)
          (row_val cols_start rows cols type_size l) rows 0 m) (top_slot array l')
      = row_slot array layers rows l' 0"
    by (simp add: tops_set_def)
qed

lemma loop2_frame:
  assumes "8 * unat layers + 8 * (unat layers * unat rows) \<le> 2 ^ 64"
    and "tops_set array layers rows m"
    and "\<And>l r. l0 \<le> l \<Longrightarrow> l < layers \<Longrightarrow> r < rows
           \<Longrightarrow> 8 \<le> unat (x - row_slot array layers rows l r)"
  shows "lcl_array3d_init_loop2 array cols_start layers rows cols type_size l0 m x = m x"
  using assms
proof (induction array cols_start layers rows cols type_size l0 m
        rule: lcl_array3d_init_loop2.induct)
  case (1 array cols_start layers rows cols type_size l0 m)
  show ?case
  proof (cases "l0 < layers")
    case True
    let ?m' = "lcl_array3d_init_loop2_rows array cols_start rows cols type_size l0 0 m"
    have tops': "tops_set array layers rows ?m'"
      using "1.prems"(1,2) True by (rule inner_loop_tops)
    have "lcl_array3d_init_loop2 array cols_start layers rows cols type_size (l0 + 1) ?m' x
        = ?m' x"
      using True "1.prems"(1) tops'
    proof (rule "1.IH")
      fix l r assume "l0 + 1 \<le> l" "l < layers" "r < rows"
      with True show "8 \<le> unat (x - row_slot array layers rows l r)"
        by (intro "1.prems"(3)) (auto dest: word_succ_le)
    qed
    also have "?m' x = m x"
      unfolding inner_loop_eq [OF "1.prems"(1,2) True]
      using True by (intro store_loop_frame "1.prems"(3)) simp_all
    finally show ?thesis
      using True by (subst lcl_array3d_init_loop2.simps) simp
  next
    case False
    then show ?thesis by (subst lcl_array3d_init_loop2.simps) simp
  qed
qed

lemma loop2_load_frame:
  assumes "8 * unat layers + 8 * (unat layers * unat rows) \<le> 2 ^ 64"
    and "tops_set array layers rows m"
    and "\<And>l r. l0 \<le> l \<Longrightarrow> l < layers \<Longrightarrow> r < rows
           \<Longrightarrow> apart (row_slot array layers rows l r) a"
  shows "load_ptr (lcl_array3d_init_loop2 array cols_start layers rows cols type_size l0 m) a
       = load_ptr m a"
  by (rule load_ptr_cong, rule loop2_frame [OF assms(1,2)]) (simp add: assms(3) apart_byte)

lemma loop2_value:
  assumes "8 * unat layers + 8 * (unat layers * unat rows) \<le> 2 ^ 64"
    and "tops_set array layers rows m"
    and "l0 \<le> l" "l < layers" "r < rows"
  shows "load_ptr (lcl_array3d_init_loop2 array cols_start layers rows cols type_size l0 m)
           (row_slot array layers rows l r)
       = row_val cols_start rows cols type_size l r"
  using assms
proof (induction array cols_start layers rows cols type_size l0 m
        rule: lcl_array3d_init_loop2.induct)
  case (1 array cols_start layers rows cols type_size l0 m)
  from "1.prems" have lt: "l0 < layers" by (auto intro: order.strict_trans1)
  let ?m' = "lcl_array3d_init_loop2_rows array cols_start rows cols type_size l0 0 m"
  have tops': "tops_set array layers rows ?m'"
    using "1.prems"(1,2) lt by (rule inner_loop_tops)
  have unf: "lcl_array3d_init_loop2 array cols_start layers rows cols type_size l0 m
      = lcl_array3d_init_loop2 array cols_start layers rows cols type_size (l0 + 1) ?m'"
    using lt by (subst lcl_array3d_init_loop2.simps) simp
  show ?case
  proof (cases "l = l0")
    case True
    have "load_ptr (lcl_array3d_init_loop2 array cols_start layers rows cols type_size (l0 + 1) ?m')
            (row_slot array layers rows l0 r)
        = load_ptr ?m' (row_slot array layers rows l0 r)"
      using "1.prems"(1) tops'
    proof (rule loop2_load_frame)
      fix l' r' assume "l0 + 1 \<le> l'" "l' < layers" "r' < rows"
      moreover from this lt have "l' \<noteq> l0" by (auto dest: word_succ_le)
      ultimately show "apart (row_slot array layers rows l' r') (row_slot array layers rows l0 r)"
        using lt "1.prems"(1,5) by (intro row_slots_apart) simp_all
    qed
    also have "\<dots> = row_val cols_start rows cols type_size l0 r"
      unfolding inner_loop_eq [OF "1.prems"(1,2) lt]
    proof (rule store_loop_value)
      fix q q' assume "q < rows" "q' < rows" "q \<noteq> q'"
      then show "apart (row_slot array layers rows l0 q) (row_slot array layers rows l0 q')"
        using lt "1.prems"(1) by (intro row_slots_apart) simp_all
    qed (use "1.prems" in simp_all)
    finally show ?thesis using True unf by simp
  next
    case False
    with "1.prems" lt have "l0 + 1 \<le> l" by (intro word_le_succ) auto
    with lt "1.prems" tops'
    have "load_ptr (lcl_array3d_init_loop2 array cols_start layers rows cols type_size (l0 + 1) ?m')
            (row_slot array layers rows l r)
        = row_val cols_start rows cols type_size l r"
      by (intro "1.IH") auto
    with unf show ?thesis by simp
  qed
qed


lemma lcl_array3d_init_handle:
  "host \<noteq> 0 \<Longrightarrow> lcl_array3d_init host layers rows cols type_size w
   = (Some host,
      \<lparr>mem = lcl_array3d_init_loop2 host
               (host + sizeof_ptr * layers + layers * rows * sizeof_ptr)
               layers rows cols type_size 0
               (store_loop (top_slot host) (\<lambda>l. row_slot host layers rows l 0) layers 0
                  (zero_fill (mem w) host
                     (layers * sizeof_ptr + layers * rows * sizeof_ptr
                      + layers * rows * cols * type_size))),
       requests = requests w @ [(1, layers * sizeof_ptr + layers * rows * sizeof_ptr
                                     + layers * rows * cols * type_size)]\<rparr>)"
proof -
  have 1: "(\<lambda>l. host + sizeof_ptr * l) = top_slot host"
    by (rule ext) (simp add: top_slot_def)
  have 2: "(\<lambda>l. host + sizeof_ptr * layers + sizeof_ptr * (l * rows))
      = (\<lambda>l. row_slot host layers rows l 0)"
    by (rule ext) (simp add: row_slot_def)
  assume "host \<noteq> 0"
  then show ?thesis
    by (simp add: lcl_array3d_init_def calloc_def Let_def lcl_array3d_init_loop1_eq 1 2)
qed

lemma top_slots_apart:
  assumes "8 * unat layers \<le> 2 ^ 64" "l < layers" "l' < layers" "l \<noteq> l'"
  shows "apart (top_slot a l) (top_slot a l')"
  unfolding top_slot_def using assms by (rule slots_apart)

lemma loop1_tops:
  assumes fit: "8 * unat layers \<le> 2 ^ 64"
  shows "tops_set host layers rows
           (store_loop (top_slot host) (\<lambda>l. row_slot host layers rows l 0) layers 0 m)"
  unfolding tops_set_def
proof (intro allI impI)
  fix l assume "l < layers"
  then show "load_ptr (store_loop (top_slot host) (\<lambda>l. row_slot host layers rows l 0) layers 0 m)
          (top_slot host l) = row_slot host layers rows l 0"
    using fit by (intro store_loop_value top_slots_apart) simp_all
qed

lemma loop2_tops:
  assumes fit: "8 * unat layers + 8 * (unat layers * unat rows) \<le> 2 ^ 64"
    and tops: "tops_set array layers rows m"
  shows "tops_set array layers rows
           (lcl_array3d_init_loop2 array cols_start layers rows cols type_size 0 m)"
  unfolding tops_set_def
proof (intro allI impI)
  fix l assume l: "l < layers"
  have "load_ptr (lcl_array3d_init_loop2 array cols_start layers rows cols type_size 0 m)
          (top_slot array l) = load_ptr m (top_slot array l)"
    using fit tops l by (intro loop2_load_frame row_slot_top_apart)
  with tops l show "load_ptr (lcl_array3d_init_loop2 array cols_start layers rows cols type_size 0 m)
          (top_slot array l) = row_slot array layers rows l 0"
    by (simp add: tops_set_def)
qed

lemma top_pointer_3d:
  assumes fit: "8 * unat layers + 8 * (unat layers * unat rows) \<le> 2 ^ 64"
    and "host \<noteq> 0" "l < layers"
  shows "load_ptr (mem (snd (lcl_array3d_init host layers rows cols type_size w)))
           (top_slot host l) = row_slot host layers rows l 0"
proof -
  from fit have "8 * unat layers \<le> 2 ^ 64" by linarith
  then have "tops_set host layers rows
      (store_loop (top_slot host) (\<lambda>l. row_slot host layers rows l 0) layers 0 m)" for m
    by (rule loop1_tops)
  with fit have "tops_set host layers rows
      (mem (snd (lcl_array3d_init host layers rows cols type_size w)))"
    by (simp add: lcl_array3d_init_handle [OF assms(2)] loop2_tops)
  with assms(3) show ?thesis by (simp add: tops_set_def)
qed

lemma row_pointer_3d:
  assumes fit: "8 * unat layers + 8 * (unat layers * unat rows) \<le> 2 ^ 64"
    and "host \<noteq> 0" "l < layers" "r < rows"
  shows "load_ptr (mem (snd (lcl_array3d_init host layers rows cols type_size w)))
           (row_slot host layers rows l r)
       = row_val (host + sizeof_ptr * layers + layers * rows * sizeof_ptr) rows cols type_size l r"
proof -
  from fit have "8 * unat layers \<le> 2 ^ 64" by linarith
  then have "tops_set host layers rows
      (store_loop (top_slot host) (\<lambda>l. row_slot host layers rows l 0) layers 0 m)" for m
    by (rule loop1_tops)
  then show ?thesis
    using fit assms(3,4)
    by (simp add: lcl_array3d_init_handle [OF assms(2)] loop2_value)
qed

lemma pointer_bytes_only_3d:
  assumes "host \<noteq> 0"
    and out: "8 * unat layers + 8 * (unat layers * unat rows) \<le> unat (x - host)"
  shows "mem (snd (lcl_array3d_init host layers rows cols type_size w)) x
       = zero_fill (mem w) host
           (layers * sizeof_ptr + layers * rows * sizeof_ptr + layers * rows * cols * type_size) x"
proof -
  let ?m0 = "zero_fill (mem w) host
           (layers * sizeof_ptr + layers * rows * sizeof_ptr + layers * rows * cols * type_size)"
  let ?m1 = "store_loop (top_slot host) (\<lambda>l. row_slot host layers rows l 0) layers 0 ?m0"
  have x: "x = host + of_nat (unat (x - host))" by simp
  have xlt: "unat (x - host) < 2 ^ 64" using unsigned_less [of "x - host"] by simp
  with out have fit: "8 * unat layers + 8 * (unat layers * unat rows) \<le> 2 ^ 64" by linarith
  then have fit1: "8 * unat layers \<le> 2 ^ 64" by linarith
  have tops: "tops_set host layers rows ?m1" using fit1 by (rule loop1_tops)
  have "lcl_array3d_init_loop2 host (host + sizeof_ptr * layers + layers * rows * sizeof_ptr)
          layers rows cols type_size 0 ?m1 x = ?m1 x"
    using fit tops
  proof (rule loop2_frame)
    fix l r assume "l < layers" "r < rows"
    then have k: "unat l * unat rows + unat r < unat layers * unat rows"
      by (rule row_index_bound)
    have "8 \<le> unat ((host + of_nat (unat (x - host)))
        - (host + of_nat (8 * unat layers + 8 * (unat l * unat rows + unat r))))"
    proof (rule offset_outside)
      show "8 * unat layers + 8 * (unat l * unat rows + unat r) + 8 \<le> 2 ^ 64"
        using k fit by (rule slot_fits)
      show "unat (x - host) < 2 ^ 64" by (rule xlt)
      have "8 * unat layers + 8 * (unat l * unat rows + unat r) + 8
          \<le> 8 * unat layers + 8 * (unat layers * unat rows)"
        using k by (intro slot_fits [where n = "unat layers * unat rows"]) simp_all
      with out show "unat (x - host) < 8 * unat layers + 8 * (unat l * unat rows + unat r)
        \<or> 8 * unat layers + 8 * (unat l * unat rows + unat r) + 8 \<le> unat (x - host)"
        by linarith
    qed
    then show "8 \<le> unat (x - row_slot host layers rows l r)"
      by (simp only: row_slot_offset x [symmetric])
  qed
  also have "?m1 x = ?m0 x"
  proof (rule store_loop_frame)
    fix l assume "l < layers"
    then have l: "unat l < unat layers" by (simp add: word_less_nat_alt)
    have "8 \<le> unat ((host + of_nat (unat (x - host))) - (host + of_nat (8 * unat l)))"
    proof (rule offset_outside)
      show "8 * unat l + 8 \<le> 2 ^ 64" using l fit1 by linarith
      show "unat (x - host) < 2 ^ 64" by (rule xlt)
      show "unat (x - host) < 8 * unat l \<or> 8 * unat l + 8 \<le> unat (x - host)"
        using l out by linarith
    qed
    then show "8 \<le> unat (x - top_slot host l)"
      by (simp only: top_slot_offset x [symmetric])
  qed
  finally show ?thesis
    by (simp add: lcl_array3d_init_handle [OF assms(1)])
qed


lemma unat_alloc_len_3d:
  assumes "8 * unat layers + 8 * (unat layers * unat rows)
           + unat layers * unat rows * unat cols * unat type_size < 2 ^ 64"
  shows "unat (layers * sizeof_ptr + layers * rows * sizeof_ptr + layers * rows * cols * type_size)
       = 8 * unat layers + 8 * (unat layers * unat rows)
         + unat layers * unat rows * unat cols * unat type_size"
proof -
  have "layers * sizeof_ptr + layers * rows * sizeof_ptr + layers * rows * cols * type_size
      = (of_nat (8 * unat layers + 8 * (unat layers * unat rows)
           + unat layers * unat rows * unat cols * unat type_size) :: size_t)"
    by (simp add: sizeof_ptr_def)
  then show ?thesis using assms by (simp only: unat_of_nat) simp
qed

lemma cols_start_offset:
  "host + sizeof_ptr * layers + layers * rows * sizeof_ptr
   = host + of_nat (8 * unat layers + 8 * (unat layers * unat rows))"
  by (simp add: sizeof_ptr_def)

lemma row_val_offset:
  "row_val (host + sizeof_ptr * layers + layers * rows * sizeof_ptr) rows cols type_size l r
   = host + of_nat (8 * unat layers + 8 * (unat layers * unat rows)
                    + (unat l * unat rows + unat r) * unat cols * unat type_size)"
  by (simp add: row_val_def sizeof_ptr_def algebra_simps)

lemma elem_offset_le:
  assumes "k < n" "c < C"
  shows "(k * C + c) * T + T \<le> n * C * (T :: nat)"
proof -
  from assms have "k * C + c < n * C" by (rule index2_less)
  then have "Suc (k * C + c) * T \<le> (n * C) * T" by (intro mult_le_mono1) simp
  then show ?thesis by simp
qed

lemma row_offset_le:
  assumes "k < n"
  shows "k * C * T + C * T \<le> n * C * (T :: nat)"
proof -
  from assms have "Suc k * (C * T) \<le> n * (C * T)" by (intro mult_le_mono1) simp
  then show ?thesis by (simp add: mult.assoc)
qed

lemma layer_offset_le:
  assumes "l < (L :: nat)"
  shows "l * R + R \<le> L * R"
proof -
  from assms have "Suc l * R \<le> L * R" by (intro mult_le_mono1) simp
  then show ?thesis by simp
qed

text \<open>
  The facts about the finished 3D block that the claims below share. \<open>top\<close> says that
  the block of the exact total size ends below the top of the address space.
\<close>

lemma block_3d:
  assumes no_overflow: "8 * unat layers + 8 * (unat layers * unat rows)
           + unat layers * unat rows * unat cols * unat type_size < 2 ^ 64"
    and host: "host_block host
           (layers * sizeof_ptr + layers * rows * sizeof_ptr + layers * rows * cols * type_size)"
  shows "host \<noteq> 0"
    and "8 * unat layers + 8 * (unat layers * unat rows) \<le> 2 ^ 64"
    and "unat host + (8 * unat layers + 8 * (unat layers * unat rows)
           + unat layers * unat rows * unat cols * unat type_size) < 2 ^ 64"
  using host no_overflow
  by (simp_all add: host_block_def unat_alloc_len_3d [OF no_overflow])

lemma unat_top_value:
  assumes top: "unat host + (8 * unat layers + 8 * (unat layers * unat rows) + D) < 2 ^ 64"
    and l: "l < layers"
  shows "unat (row_slot host layers rows l 0)
       = unat host + (8 * unat layers + 8 * (unat l * unat rows))"
proof (rule unat_at_offset)
  show "row_slot host layers rows l 0 = host + of_nat (8 * unat layers + 8 * (unat l * unat rows))"
    by (simp add: row_slot_offset)
  from l have "unat l < unat layers" by (simp add: word_less_nat_alt)
  then have "unat l * unat rows \<le> unat layers * unat rows" by (intro mult_le_mono1) simp
  with top show "unat host + (8 * unat layers + 8 * (unat l * unat rows)) < 2 ^ 64"
    by linarith
qed

lemma unat_row_value:
  assumes top: "unat host + (8 * unat layers + 8 * (unat layers * unat rows)
           + unat layers * unat rows * unat cols * unat type_size) < 2 ^ 64"
    and l: "l < layers" and r: "r < rows"
  shows "unat (row_val (host + sizeof_ptr * layers + layers * rows * sizeof_ptr)
                 rows cols type_size l r)
       = unat host + (8 * unat layers + 8 * (unat layers * unat rows)
                      + (unat l * unat rows + unat r) * unat cols * unat type_size)"
proof (rule unat_at_offset)
  show "row_val (host + sizeof_ptr * layers + layers * rows * sizeof_ptr) rows cols type_size l r
      = host + of_nat (8 * unat layers + 8 * (unat layers * unat rows)
                    + (unat l * unat rows + unat r) * unat cols * unat type_size)"
    by (rule row_val_offset)
  from l r have "unat l * unat rows + unat r < unat layers * unat rows"
    by (rule row_index_bound)
  then have "(unat l * unat rows + unat r) * unat cols * unat type_size
        + unat cols * unat type_size
      \<le> unat layers * unat rows * unat cols * unat type_size"
    by (rule row_offset_le)
  with top show "unat host + (8 * unat layers + 8 * (unat layers * unat rows)
        + (unat l * unat rows + unat r) * unat cols * unat type_size) < 2 ^ 64"
    by linarith
qed

lemma unat_elem3d:
  assumes no_overflow: "8 * unat layers + 8 * (unat layers * unat rows)
           + unat layers * unat rows * unat cols * unat type_size < 2 ^ 64"
    and host: "host_block host
           (layers * sizeof_ptr + layers * rows * sizeof_ptr + layers * rows * cols * type_size)"
    and l: "l < layers" and r: "r < rows" and c: "c < cols"
  shows "unat (elem3d_addr (mem (snd (lcl_array3d_init host layers rows cols type_size w)))
                 host type_size l r c)
       = unat host + (8 * unat layers + 8 * (unat layers * unat rows)
                      + ((unat l * unat rows + unat r) * unat cols + unat c) * unat type_size)"
proof (rule unat_at_offset)
  let ?m = "mem (snd (lcl_array3d_init host layers rows cols type_size w))"
  note blk = block_3d [OF no_overflow host]
  have tp: "load_ptr ?m (host + sizeof_ptr * l) = row_slot host layers rows l 0"
    using top_pointer_3d [OF blk(2,1) l] by (simp add: top_slot_def)
  have "load_ptr ?m (host + sizeof_ptr * l) + sizeof_ptr * r = row_slot host layers rows l r"
    unfolding tp by (simp add: row_slot_def)
  then have "elem3d_addr ?m host type_size l r c
      = row_val (host + sizeof_ptr * layers + layers * rows * sizeof_ptr) rows cols type_size l r
        + type_size * c"
    unfolding elem3d_addr_def by (simp only: row_pointer_3d [OF blk(2,1) l r])
  also have "\<dots> = host + of_nat (8 * unat layers + 8 * (unat layers * unat rows)
        + ((unat l * unat rows + unat r) * unat cols + unat c) * unat type_size)"
    unfolding row_val_offset by (simp add: algebra_simps)
  finally show "elem3d_addr ?m host type_size l r c
      = host + of_nat (8 * unat layers + 8 * (unat layers * unat rows)
        + ((unat l * unat rows + unat r) * unat cols + unat c) * unat type_size)" .
  from l r have k: "unat l * unat rows + unat r < unat layers * unat rows"
    by (rule row_index_bound)
  from c have "unat c < unat cols" by (simp add: word_less_nat_alt)
  with k have "((unat l * unat rows + unat r) * unat cols + unat c) * unat type_size
        + unat type_size
      \<le> unat layers * unat rows * unat cols * unat type_size"
    by (rule elem_offset_le)
  with blk(3) show "unat host + (8 * unat layers + 8 * (unat layers * unat rows)
        + ((unat l * unat rows + unat r) * unat cols + unat c) * unat type_size) < 2 ^ 64"
    by linarith
qed

text \<open>
  Claim C2. When the total size does not overflow and the host allocation succeeds,
  \<^verbatim>\<open>lcl_array3d_init\<close> returns the handle; for every layer \<open>l < layers\<close> top-level slot
  \<open>l\<close> holds \<open>second_start + 8 * (l * rows)\<close>, where \<open>second_start = handle + 8 * layers\<close>;
  for every \<open>r < rows\<close> second-level slot \<open>l * rows + r\<close> holds
  \<open>data_start + type_size * cols * (r + l * rows)\<close>, where
  \<open>data_start = second_start + 8 * layers * rows\<close>; nothing wraps; and
  \<^verbatim>\<open>handle[l][r][c]\<close> is at \<open>data_start + ((l * rows + r) * cols + c) * type_size\<close>, the
  place of element \<open>(l, r, c)\<close> in layer-major, then row-major order.
\<close>

theorem lcl_array3d_init_pointers:
  assumes no_overflow: "8 * unat layers + 8 * (unat layers * unat rows)
           + unat layers * unat rows * unat cols * unat type_size < 2 ^ 64"
    and host: "host_block host
           (layers * sizeof_ptr + layers * rows * sizeof_ptr + layers * rows * cols * type_size)"
    and l: "l < layers"
  shows "fst (lcl_array3d_init host layers rows cols type_size w) = Some host \<and>
     load_ptr (mem (snd (lcl_array3d_init host layers rows cols type_size w)))
        (host + sizeof_ptr * l)
       = host + sizeof_ptr * layers + sizeof_ptr * (l * rows) \<and>
     unat (host + sizeof_ptr * layers + sizeof_ptr * (l * rows))
       = unat host + 8 * unat layers + 8 * (unat l * unat rows) \<and>
     (\<forall>r. r < rows \<longrightarrow>
        load_ptr (mem (snd (lcl_array3d_init host layers rows cols type_size w)))
           (host + sizeof_ptr * layers + sizeof_ptr * (l * rows + r))
          = host + sizeof_ptr * layers + layers * rows * sizeof_ptr
            + type_size * cols * (r + l * rows) \<and>
        unat (host + sizeof_ptr * layers + layers * rows * sizeof_ptr
              + type_size * cols * (r + l * rows))
          = unat host + 8 * unat layers + 8 * (unat layers * unat rows)
            + unat type_size * unat cols * (unat r + unat l * unat rows) \<and>
        (\<forall>c. c < cols \<longrightarrow>
           unat (elem3d_addr (mem (snd (lcl_array3d_init host layers rows cols type_size w)))
                   host type_size l r c)
           = unat host + 8 * unat layers + 8 * (unat layers * unat rows)
             + ((unat l * unat rows + unat r) * unat cols + unat c) * unat type_size))"
proof -
  let ?L = "unat layers" and ?R = "unat rows" and ?C = "unat cols" and ?T = "unat type_size"
  let ?m = "mem (snd (lcl_array3d_init host layers rows cols type_size w))"
  let ?P = "8 * ?L + 8 * (?L * ?R)"
  note blk = block_3d [OF no_overflow host]
  have res: "fst (lcl_array3d_init host layers rows cols type_size w) = Some host"
    by (simp add: lcl_array3d_init_handle [OF blk(1)])
  have tp: "load_ptr ?m (host + sizeof_ptr * l)
      = host + sizeof_ptr * layers + sizeof_ptr * (l * rows)"
    using top_pointer_3d [OF blk(2,1) l, of cols type_size w]
    by (simp add: top_slot_def row_slot_def)
  have tpn: "unat (host + sizeof_ptr * layers + sizeof_ptr * (l * rows))
      = unat host + (8 * ?L + 8 * (unat l * ?R))"
    using unat_top_value [OF blk(3) l] by (simp add: row_slot_def)
  have rows: "load_ptr ?m (host + sizeof_ptr * layers + sizeof_ptr * (l * rows + r))
          = host + sizeof_ptr * layers + layers * rows * sizeof_ptr
            + type_size * cols * (r + l * rows) \<and>
        unat (host + sizeof_ptr * layers + layers * rows * sizeof_ptr
              + type_size * cols * (r + l * rows))
          = unat host + (?P + ?T * ?C * (unat r + unat l * ?R)) \<and>
        (\<forall>c. c < cols \<longrightarrow>
           unat (elem3d_addr ?m host type_size l r c)
           = unat host + (?P + ((unat l * ?R + unat r) * ?C + unat c) * ?T))"
    if r: "r < rows" for r
  proof -
    have slot: "host + sizeof_ptr * layers + sizeof_ptr * (l * rows + r)
        = row_slot host layers rows l r"
      by (simp add: row_slot_def sizeof_ptr_def algebra_simps)
    have val: "host + sizeof_ptr * layers + layers * rows * sizeof_ptr
            + type_size * cols * (r + l * rows)
        = row_val (host + sizeof_ptr * layers + layers * rows * sizeof_ptr) rows cols type_size l r"
      by (simp add: row_val_def algebra_simps)
    have nat_eq: "?T * ?C * (unat r + unat l * ?R) = (unat l * ?R + unat r) * ?C * ?T"
      by (simp add: algebra_simps)
    have 1: "load_ptr ?m (host + sizeof_ptr * layers + sizeof_ptr * (l * rows + r))
          = host + sizeof_ptr * layers + layers * rows * sizeof_ptr
            + type_size * cols * (r + l * rows)"
      unfolding slot val using blk(2,1) l r by (rule row_pointer_3d)
    have 2: "unat (host + sizeof_ptr * layers + layers * rows * sizeof_ptr
              + type_size * cols * (r + l * rows))
          = unat host + (?P + ?T * ?C * (unat r + unat l * ?R))"
      unfolding val nat_eq using blk(3) l r by (rule unat_row_value)
    from 1 2 unat_elem3d [OF no_overflow host l r] show ?thesis by blast
  qed
  from res tp tpn rows show ?thesis by (simp only: add.assoc) blast
qed

theorem lcl_array3d_init_pointers_witness:
  "8 * unat (2 :: size_t) + 8 * (unat (2 :: size_t) * unat (3 :: size_t))
     + unat (2 :: size_t) * unat (3 :: size_t) * unat (4 :: size_t) * unat (4 :: size_t) < 2 ^ 64 \<and>
   host_block 4096 (2 * sizeof_ptr + 2 * 3 * sizeof_ptr + 2 * 3 * 4 * 4) \<and>
   (1 :: size_t) < 2 \<and> (2 :: size_t) < 3 \<and> (3 :: size_t) < 4 \<and>
   fst (lcl_array3d_init 4096 2 3 4 4 empty_world) = Some 4096 \<and>
   load_ptr (mem (snd (lcl_array3d_init 4096 2 3 4 4 empty_world))) (4096 + sizeof_ptr * 1)
     = 4096 + sizeof_ptr * 2 + sizeof_ptr * (1 * 3) \<and>
   load_ptr (mem (snd (lcl_array3d_init 4096 2 3 4 4 empty_world)))
      (4096 + sizeof_ptr * 2 + sizeof_ptr * (1 * 3 + 2))
     = 4096 + sizeof_ptr * 2 + 2 * 3 * sizeof_ptr + 4 * 4 * (2 + 1 * 3) \<and>
   unat (elem3d_addr (mem (snd (lcl_array3d_init 4096 2 3 4 4 empty_world))) 4096 4 1 2 3) = 4252"
proof -
  have a: "8 * unat (2 :: size_t) + 8 * (unat (2 :: size_t) * unat (3 :: size_t))
     + unat (2 :: size_t) * unat (3 :: size_t) * unat (4 :: size_t) * unat (4 :: size_t) < 2 ^ 64"
    by simp
  have b: "host_block 4096 (2 * sizeof_ptr + 2 * 3 * sizeof_ptr + 2 * 3 * 4 * 4)"
    by (simp add: host_block_def sizeof_ptr_def)
  have c: "(1 :: size_t) < 2" and d: "(2 :: size_t) < 3" and e: "(3 :: size_t) < 4"
    by simp_all
  from lcl_array3d_init_pointers [OF a b c, of empty_world] d e
  have "fst (lcl_array3d_init 4096 2 3 4 4 empty_world) = Some 4096"
    and "load_ptr (mem (snd (lcl_array3d_init 4096 2 3 4 4 empty_world))) (4096 + sizeof_ptr * 1)
     = 4096 + sizeof_ptr * 2 + sizeof_ptr * (1 * 3)"
    and "load_ptr (mem (snd (lcl_array3d_init 4096 2 3 4 4 empty_world)))
      (4096 + sizeof_ptr * 2 + sizeof_ptr * (1 * 3 + 2))
     = 4096 + sizeof_ptr * 2 + 2 * 3 * sizeof_ptr + 4 * 4 * (2 + 1 * 3)"
    and "unat (elem3d_addr (mem (snd (lcl_array3d_init 4096 2 3 4 4 empty_world))) 4096 4 1 2 3)
     = unat (4096 :: size_t) + 8 * unat (2 :: size_t) + 8 * (unat (2 :: size_t) * unat (3 :: size_t))
       + ((unat (1 :: size_t) * unat (3 :: size_t) + unat (2 :: size_t)) * unat (4 :: size_t)
          + unat (3 :: size_t)) * unat (4 :: size_t)"
    by blast+
  with a b c d e show ?thesis by simp
qed

text \<open>
  Claim C4. With no overflow of the total size and a successful host allocation, the
  block of \<^verbatim>\<open>lcl_array3d_init\<close> is cut, in order and without gaps or wrap-around, into the
  top-pointer region of \<open>8 * layers\<close> bytes, the second-level-pointer region of
  \<open>8 * layers * rows\<close> bytes and the data region of \<open>layers * rows * cols * type_size\<close>
  bytes, which ends where the block ends; so the three byte ranges do not overlap. Every
  pointer written by the first loop lies in the second-level region together with the
  \<open>rows\<close> slots it addresses, and every pointer written by the second nest lies in the
  data region together with the \<open>cols\<close> elements it addresses. (A pointer whose slice is
  empty may equal the end of its region.)
\<close>

theorem lcl_array3d_init_layout:
  assumes no_overflow: "8 * unat layers + 8 * (unat layers * unat rows)
           + unat layers * unat rows * unat cols * unat type_size < 2 ^ 64"
    and host: "host_block host
           (layers * sizeof_ptr + layers * rows * sizeof_ptr + layers * rows * cols * type_size)"
  shows "unat (host + sizeof_ptr * layers) = unat host + 8 * unat layers \<and>
     unat (host + sizeof_ptr * layers + layers * rows * sizeof_ptr)
       = unat (host + sizeof_ptr * layers) + 8 * (unat layers * unat rows) \<and>
     unat host + unat (layers * sizeof_ptr + layers * rows * sizeof_ptr
                       + layers * rows * cols * type_size)
       = unat (host + sizeof_ptr * layers + layers * rows * sizeof_ptr)
         + unat layers * unat rows * unat cols * unat type_size \<and>
     unat host + unat (layers * sizeof_ptr + layers * rows * sizeof_ptr
                       + layers * rows * cols * type_size) < 2 ^ 64 \<and>
     (\<forall>l. l < layers \<longrightarrow>
        unat (host + sizeof_ptr * layers)
          \<le> unat (load_ptr (mem (snd (lcl_array3d_init host layers rows cols type_size w)))
                    (host + sizeof_ptr * l)) \<and>
        unat (load_ptr (mem (snd (lcl_array3d_init host layers rows cols type_size w)))
                (host + sizeof_ptr * l)) + 8 * unat rows
          \<le> unat (host + sizeof_ptr * layers + layers * rows * sizeof_ptr) \<and>
        (\<forall>r. r < rows \<longrightarrow>
           unat (host + sizeof_ptr * layers + layers * rows * sizeof_ptr)
             \<le> unat (load_ptr (mem (snd (lcl_array3d_init host layers rows cols type_size w)))
                   (load_ptr (mem (snd (lcl_array3d_init host layers rows cols type_size w)))
                      (host + sizeof_ptr * l) + sizeof_ptr * r)) \<and>
           unat (load_ptr (mem (snd (lcl_array3d_init host layers rows cols type_size w)))
                   (load_ptr (mem (snd (lcl_array3d_init host layers rows cols type_size w)))
                      (host + sizeof_ptr * l) + sizeof_ptr * r))
             + unat cols * unat type_size
             \<le> unat host + unat (layers * sizeof_ptr + layers * rows * sizeof_ptr
                                   + layers * rows * cols * type_size)))"
proof -
  let ?L = "unat layers" and ?R = "unat rows" and ?C = "unat cols" and ?T = "unat type_size"
  let ?m = "mem (snd (lcl_array3d_init host layers rows cols type_size w))"
  let ?P = "8 * ?L + 8 * (?L * ?R)"
  note blk = block_3d [OF no_overflow host]
  note len = unat_alloc_len_3d [OF no_overflow]
  have rs: "unat (host + sizeof_ptr * layers) = unat host + 8 * ?L"
  proof (rule unat_at_offset)
    show "host + sizeof_ptr * layers = host + of_nat (8 * ?L)" by (rule slot_offset)
    show "unat host + 8 * ?L < 2 ^ 64" using blk(3) by linarith
  qed
  have cs: "unat (host + sizeof_ptr * layers + layers * rows * sizeof_ptr) = unat host + ?P"
  proof (rule unat_at_offset)
    show "host + sizeof_ptr * layers + layers * rows * sizeof_ptr = host + of_nat ?P"
      by (rule cols_start_offset)
    show "unat host + ?P < 2 ^ 64" using blk(3) by linarith
  qed
  have tops: "unat host + 8 * ?L \<le> unat (load_ptr ?m (host + sizeof_ptr * l)) \<and>
        unat (load_ptr ?m (host + sizeof_ptr * l)) + 8 * ?R \<le> unat host + ?P \<and>
        (\<forall>r. r < rows \<longrightarrow>
           unat host + ?P
             \<le> unat (load_ptr ?m (load_ptr ?m (host + sizeof_ptr * l) + sizeof_ptr * r)) \<and>
           unat (load_ptr ?m (load_ptr ?m (host + sizeof_ptr * l) + sizeof_ptr * r)) + ?C * ?T
             \<le> unat host + (?P + ?L * ?R * ?C * ?T))"
    if l: "l < layers" for l
  proof -
    have tp: "load_ptr ?m (host + sizeof_ptr * l) = row_slot host layers rows l 0"
      using top_pointer_3d [OF blk(2,1) l] by (simp add: top_slot_def)
    have tpn: "unat (row_slot host layers rows l 0) = unat host + (8 * ?L + 8 * (unat l * ?R))"
      using blk(3) l by (rule unat_top_value)
    from l have "unat l < ?L" by (simp add: word_less_nat_alt)
    then have lay: "unat l * ?R + ?R \<le> ?L * ?R" by (rule layer_offset_le)
    have 1: "unat host + 8 * ?L \<le> unat (load_ptr ?m (host + sizeof_ptr * l))"
      unfolding tp tpn by linarith
    have 2: "unat (load_ptr ?m (host + sizeof_ptr * l)) + 8 * ?R \<le> unat host + ?P"
      unfolding tp tpn using lay by linarith
    have 3: "unat host + ?P
             \<le> unat (load_ptr ?m (load_ptr ?m (host + sizeof_ptr * l) + sizeof_ptr * r)) \<and>
           unat (load_ptr ?m (load_ptr ?m (host + sizeof_ptr * l) + sizeof_ptr * r)) + ?C * ?T
             \<le> unat host + (?P + ?L * ?R * ?C * ?T)"
      if r: "r < rows" for r
    proof -
      have "load_ptr ?m (host + sizeof_ptr * l) + sizeof_ptr * r = row_slot host layers rows l r"
        unfolding tp by (simp add: row_slot_def)
      then have rp: "load_ptr ?m (load_ptr ?m (host + sizeof_ptr * l) + sizeof_ptr * r)
          = row_val (host + sizeof_ptr * layers + layers * rows * sizeof_ptr)
              rows cols type_size l r"
        by (simp only: row_pointer_3d [OF blk(2,1) l r])
      have rpn: "unat (row_val (host + sizeof_ptr * layers + layers * rows * sizeof_ptr)
                rows cols type_size l r)
          = unat host + (?P + (unat l * ?R + unat r) * ?C * ?T)"
        using blk(3) l r by (rule unat_row_value)
      from l r have "unat l * ?R + unat r < ?L * ?R" by (rule row_index_bound)
      then have "(unat l * ?R + unat r) * ?C * ?T + ?C * ?T \<le> ?L * ?R * ?C * ?T"
        by (rule row_offset_le)
      then show ?thesis unfolding rp rpn by linarith
    qed
    from 1 2 3 show ?thesis by blast
  qed
  have end_lt: "unat host + (?P + ?L * ?R * ?C * ?T) < 2 ^ 64" by (rule blk(3))
  show ?thesis
    unfolding rs cs len using tops end_lt by (simp only: add.assoc) blast
qed


theorem lcl_array3d_init_layout_witness:
  "8 * unat (2 :: size_t) + 8 * (unat (2 :: size_t) * unat (3 :: size_t))
     + unat (2 :: size_t) * unat (3 :: size_t) * unat (4 :: size_t) * unat (4 :: size_t) < 2 ^ 64 \<and>
   host_block 4096 (2 * sizeof_ptr + 2 * 3 * sizeof_ptr + 2 * 3 * 4 * 4) \<and>
   (1 :: size_t) < 2 \<and> (2 :: size_t) < 3 \<and>
   unat (4096 + sizeof_ptr * 2 :: addr) = unat (4096 :: addr) + 8 * unat (2 :: size_t) \<and>
   unat (4096 + sizeof_ptr * 2 :: addr)
     \<le> unat (load_ptr (mem (snd (lcl_array3d_init 4096 2 3 4 4 empty_world)))
               (4096 + sizeof_ptr * 1)) \<and>
   unat (load_ptr (mem (snd (lcl_array3d_init 4096 2 3 4 4 empty_world)))
           (4096 + sizeof_ptr * 1)) + 8 * unat (3 :: size_t)
     \<le> unat (4096 + sizeof_ptr * 2 + 2 * 3 * sizeof_ptr :: addr) \<and>
   unat (4096 + sizeof_ptr * 2 + 2 * 3 * sizeof_ptr :: addr)
     \<le> unat (load_ptr (mem (snd (lcl_array3d_init 4096 2 3 4 4 empty_world)))
              (load_ptr (mem (snd (lcl_array3d_init 4096 2 3 4 4 empty_world)))
                 (4096 + sizeof_ptr * 1) + sizeof_ptr * 2)) \<and>
   unat (load_ptr (mem (snd (lcl_array3d_init 4096 2 3 4 4 empty_world)))
          (load_ptr (mem (snd (lcl_array3d_init 4096 2 3 4 4 empty_world)))
             (4096 + sizeof_ptr * 1) + sizeof_ptr * 2)) + unat (4 :: size_t) * unat (4 :: size_t)
     \<le> unat (4096 :: addr) + unat (2 * sizeof_ptr + 2 * 3 * sizeof_ptr + 2 * 3 * 4 * 4 :: size_t)"
proof -
  have a: "8 * unat (2 :: size_t) + 8 * (unat (2 :: size_t) * unat (3 :: size_t))
     + unat (2 :: size_t) * unat (3 :: size_t) * unat (4 :: size_t) * unat (4 :: size_t) < 2 ^ 64"
    by simp
  have b: "host_block 4096 (2 * sizeof_ptr + 2 * 3 * sizeof_ptr + 2 * 3 * 4 * 4)"
    by (simp add: host_block_def sizeof_ptr_def)
  have c: "(1 :: size_t) < 2" and d: "(2 :: size_t) < 3"
    by simp_all
  from lcl_array3d_init_layout [OF a b, of empty_world] c d
  show ?thesis using a b by blast
qed

section \<open>Size computation and the allocation request\<close>






section \<open>The data region stays zero\<close>

lemma block_byte_offset:
  fixes host :: addr
  assumes "i < unat (n :: size_t)"
  shows "unat ((host + of_nat i) - host) = i"
proof -
  have "unat n < 2 ^ 64" using unsigned_less [of n] by simp
  with assms have "i < 2 ^ 64" by simp
  then show ?thesis by (rule unat_offset)
qed

lemma zero_fill_inside:
  assumes "i < unat n"
  shows "zero_fill m host n (host + of_nat i) = 0"
proof -
  have "unat ((host + of_nat i) - host) = i" using assms by (rule block_byte_offset)
  with assms have "(host + of_nat i) - host < n" by (simp add: word_less_nat_alt)
  then show ?thesis by (simp add: zero_fill_def)
qed

lemma pointer_bytes_only_2d:
  assumes "host \<noteq> 0" and out: "8 * unat rows \<le> unat (x - host)"
  shows "mem (snd (lcl_array2d_init host rows cols type_size w)) x
       = zero_fill (mem w) host (rows * sizeof_ptr + rows * cols * type_size) x"
proof -
  have x: "x = host + of_nat (unat (x - host))" by simp
  have xlt: "unat (x - host) < 2 ^ 64" using unsigned_less [of "x - host"] by simp
  have "store_loop (\<lambda>r. host + sizeof_ptr * r)
          (\<lambda>r. host + sizeof_ptr * rows + r * cols * type_size) rows 0 m0 x = m0 x" for m0
  proof (rule store_loop_frame)
    fix r assume "r < rows"
    then have r: "unat r < unat rows" by (simp add: word_less_nat_alt)
    have "8 \<le> unat ((host + of_nat (unat (x - host))) - (host + of_nat (8 * unat r)))"
    proof (rule offset_outside)
      show "8 * unat r + 8 \<le> 2 ^ 64" using r out xlt by linarith
      show "unat (x - host) < 2 ^ 64" by (rule xlt)
      show "unat (x - host) < 8 * unat r \<or> 8 * unat r + 8 \<le> unat (x - host)"
        using r out by linarith
    qed
    then show "8 \<le> unat (x - (host + sizeof_ptr * r))"
      by (simp only: slot_offset x [symmetric])
  qed
  then show ?thesis
    by (simp add: lcl_array2d_init_handle [OF assms(1)])
qed

text \<open>
  Claim C5, as stated, fails: it speaks of every successful call, and a call whose size
  computation wrapped can succeed. With \<open>rows = 1\<close> and \<open>cols = type_size = 2 ^ 32\<close>, in a
  memory that holds 255 everywhere, the host's block has 8 bytes, the call returns the
  handle 4096, and row pointer 0 holds 4104, the first byte after the pointer table. That
  byte of the data region lies outside the block and still reads 255.
\<close>

theorem data_region_not_zero_after_overflow:
  "2 ^ 64 \<le> 8 * unat (1 :: size_t)
      + unat (1 :: size_t) * unat (4294967296 :: size_t) * unat (4294967296 :: size_t) \<and>
   host_block 4096 (1 * sizeof_ptr + 1 * 4294967296 * 4294967296) \<and>
   fst (lcl_array2d_init 4096 1 4294967296 4294967296 \<lparr>mem = (\<lambda>_. 255), requests = []\<rparr>)
     = Some 4096 \<and>
   load_ptr (mem (snd (lcl_array2d_init 4096 1 4294967296 4294967296
                         \<lparr>mem = (\<lambda>_. 255), requests = []\<rparr>))) (4096 + sizeof_ptr * 0) = 4104 \<and>
   mem (snd (lcl_array2d_init 4096 1 4294967296 4294967296
               \<lparr>mem = (\<lambda>_. 255), requests = []\<rparr>)) 4104 = 255"
proof -
  let ?w = "\<lparr>mem = (\<lambda>_. 255 :: byte), requests = []\<rparr>"
  have h: "(4096 :: addr) \<noteq> 0" by simp
  have fit: "8 * unat (1 :: size_t) \<le> 2 ^ 64" by simp
  have r: "(0 :: size_t) < 1" by simp
  have out: "8 * unat (1 :: size_t) \<le> unat ((4104 :: addr) - 4096)" by simp
  have 1: "2 ^ 64 \<le> 8 * unat (1 :: size_t)
      + unat (1 :: size_t) * unat (4294967296 :: size_t) * unat (4294967296 :: size_t)"
    by simp
  have 2: "host_block 4096 (1 * sizeof_ptr + 1 * 4294967296 * 4294967296)"
    by (simp add: host_block_def sizeof_ptr_def)
  have 3: "fst (lcl_array2d_init 4096 1 4294967296 4294967296 ?w) = Some 4096"
    by (simp add: lcl_array2d_init_handle)
  have 4: "load_ptr (mem (snd (lcl_array2d_init 4096 1 4294967296 4294967296 ?w)))
      (4096 + sizeof_ptr * 0) = 4104"
    using row_pointer_2d [OF fit h r, of 4294967296 4294967296 ?w]
    by (simp add: sizeof_ptr_def)
  have 5: "mem (snd (lcl_array2d_init 4096 1 4294967296 4294967296 ?w)) 4104 = 255"
    using pointer_bytes_only_2d [OF h out, of 4294967296 4294967296 ?w]
    by (simp add: zero_fill_def sizeof_ptr_def)
  from 1 2 3 4 5 show ?thesis by (intro conjI)
qed

text \<open>
  Claim C5, amended. After a call whose total size does not overflow and whose host
  allocation succeeds, every byte of the data region reads as zero: byte \<open>i\<close> of the
  block for \<open>8 * rows \<le> i < 8 * rows + rows * cols * type_size\<close> in the 2D case, and for
  \<open>8 * layers + 8 * layers * rows \<le> i < 8 * layers + 8 * layers * rows + layers * rows * cols * type_size\<close>
  in the 3D case, whatever memory held before. The loops write only pointer slots, so
  what \<^verbatim>\<open>calloc\<close> zeroed stays zero.
\<close>

theorem data_region_zero:
  "(8 * unat rows + unat rows * unat cols * unat type_size < 2 ^ 64 \<and>
    host_block host (rows * sizeof_ptr + rows * cols * type_size) \<longrightarrow>
      fst (lcl_array2d_init host rows cols type_size w) = Some host \<and>
      (\<forall>i. 8 * unat rows \<le> i \<and>
           i < 8 * unat rows + unat rows * unat cols * unat type_size \<longrightarrow>
         mem (snd (lcl_array2d_init host rows cols type_size w)) (host + of_nat i) = 0)) \<and>
   (8 * unat layers + 8 * (unat layers * unat rows)
      + unat layers * unat rows * unat cols * unat type_size < 2 ^ 64 \<and>
    host_block host
      (layers * sizeof_ptr + layers * rows * sizeof_ptr + layers * rows * cols * type_size) \<longrightarrow>
      fst (lcl_array3d_init host layers rows cols type_size w) = Some host \<and>
      (\<forall>i. 8 * unat layers + 8 * (unat layers * unat rows) \<le> i \<and>
           i < 8 * unat layers + 8 * (unat layers * unat rows)
               + unat layers * unat rows * unat cols * unat type_size \<longrightarrow>
         mem (snd (lcl_array3d_init host layers rows cols type_size w)) (host + of_nat i) = 0))"
proof (intro conjI impI allI; (elim conjE)?)
  assume no: "8 * unat rows + unat rows * unat cols * unat type_size < 2 ^ 64"
    and hb: "host_block host (rows * sizeof_ptr + rows * cols * type_size)"
  from hb have h0: "host \<noteq> 0" by (simp add: host_block_def)
  then show "fst (lcl_array2d_init host rows cols type_size w) = Some host"
    by (simp add: lcl_array2d_init_handle)
  fix i assume lo: "8 * unat rows \<le> i"
    and hi: "i < 8 * unat rows + unat rows * unat cols * unat type_size"
  from hi have len: "i < unat (rows * sizeof_ptr + rows * cols * type_size)"
    by (simp only: unat_alloc_len_2d [OF no])
  then have "unat ((host + of_nat i) - host) = i" by (rule block_byte_offset)
  with lo have "8 * unat rows \<le> unat ((host + of_nat i) - host)" by simp
  with h0 have "mem (snd (lcl_array2d_init host rows cols type_size w)) (host + of_nat i)
      = zero_fill (mem w) host (rows * sizeof_ptr + rows * cols * type_size) (host + of_nat i)"
    by (rule pointer_bytes_only_2d)
  also have "\<dots> = 0" using len by (rule zero_fill_inside)
  finally show "mem (snd (lcl_array2d_init host rows cols type_size w)) (host + of_nat i) = 0" .
next
  assume no: "8 * unat layers + 8 * (unat layers * unat rows)
      + unat layers * unat rows * unat cols * unat type_size < 2 ^ 64"
    and hb: "host_block host
      (layers * sizeof_ptr + layers * rows * sizeof_ptr + layers * rows * cols * type_size)"
  from hb have h0: "host \<noteq> 0" by (simp add: host_block_def)
  then show "fst (lcl_array3d_init host layers rows cols type_size w) = Some host"
    by (simp add: lcl_array3d_init_handle)
  fix i assume lo: "8 * unat layers + 8 * (unat layers * unat rows) \<le> i"
    and hi: "i < 8 * unat layers + 8 * (unat layers * unat rows)
               + unat layers * unat rows * unat cols * unat type_size"
  from hi have len: "i < unat (layers * sizeof_ptr + layers * rows * sizeof_ptr
                            + layers * rows * cols * type_size)"
    by (simp only: unat_alloc_len_3d [OF no])
  then have "unat ((host + of_nat i) - host) = i" by (rule block_byte_offset)
  with lo have "8 * unat layers + 8 * (unat layers * unat rows)
      \<le> unat ((host + of_nat i) - host)" by simp
  with h0 have "mem (snd (lcl_array3d_init host layers rows cols type_size w)) (host + of_nat i)
      = zero_fill (mem w) host (layers * sizeof_ptr + layers * rows * sizeof_ptr
                 + layers * rows * cols * type_size) (host + of_nat i)"
    by (rule pointer_bytes_only_3d)
  also have "\<dots> = 0" using len by (rule zero_fill_inside)
  finally show "mem (snd (lcl_array3d_init host layers rows cols type_size w)) (host + of_nat i) = 0" .
qed

theorem data_region_zero_witness:
  "(8 * unat (2 :: size_t) + unat (2 :: size_t) * unat (3 :: size_t) * unat (4 :: size_t) < 2 ^ 64 \<and>
    host_block 4096 (2 * sizeof_ptr + 2 * 3 * 4)) \<and>
   (8 * unat (2 :: size_t) \<le> 17 \<and>
    17 < 8 * unat (2 :: size_t) + unat (2 :: size_t) * unat (3 :: size_t) * unat (4 :: size_t)) \<and>
   mem (snd (lcl_array2d_init 4096 2 3 4 \<lparr>mem = (\<lambda>_. 255), requests = []\<rparr>))
     (4096 + of_nat 17) = 0 \<and>
   (8 * unat (2 :: size_t) + 8 * (unat (2 :: size_t) * unat (2 :: size_t))
      + unat (2 :: size_t) * unat (2 :: size_t) * unat (3 :: size_t) * unat (4 :: size_t) < 2 ^ 64 \<and>
    host_block 4096 (2 * sizeof_ptr + 2 * 2 * sizeof_ptr + 2 * 2 * 3 * 4)) \<and>
   (8 * unat (2 :: size_t) + 8 * (unat (2 :: size_t) * unat (2 :: size_t)) \<le> 70 \<and>
    70 < 8 * unat (2 :: size_t) + 8 * (unat (2 :: size_t) * unat (2 :: size_t))
         + unat (2 :: size_t) * unat (2 :: size_t) * unat (3 :: size_t) * unat (4 :: size_t)) \<and>
   mem (snd (lcl_array3d_init 4096 2 2 3 4 \<lparr>mem = (\<lambda>_. 255), requests = []\<rparr>))
     (4096 + of_nat 70) = 0"
proof -
  have a: "8 * unat (2 :: size_t) + unat (2 :: size_t) * unat (3 :: size_t) * unat (4 :: size_t) < 2 ^ 64 \<and>
    host_block 4096 (2 * sizeof_ptr + 2 * 3 * 4)"
    by (simp add: host_block_def sizeof_ptr_def)
  have b: "8 * unat (2 :: size_t) \<le> 17 \<and>
    17 < 8 * unat (2 :: size_t) + unat (2 :: size_t) * unat (3 :: size_t) * unat (4 :: size_t)"
    by simp
  have c: "8 * unat (2 :: size_t) + 8 * (unat (2 :: size_t) * unat (2 :: size_t))
      + unat (2 :: size_t) * unat (2 :: size_t) * unat (3 :: size_t) * unat (4 :: size_t) < 2 ^ 64 \<and>
    host_block 4096 (2 * sizeof_ptr + 2 * 2 * sizeof_ptr + 2 * 2 * 3 * 4)"
    by (simp add: host_block_def sizeof_ptr_def)
  have d: "8 * unat (2 :: size_t) + 8 * (unat (2 :: size_t) * unat (2 :: size_t)) \<le> 70 \<and>
    70 < 8 * unat (2 :: size_t) + 8 * (unat (2 :: size_t) * unat (2 :: size_t))
         + unat (2 :: size_t) * unat (2 :: size_t) * unat (3 :: size_t) * unat (4 :: size_t)"
    by simp
  note inst = data_region_zero [where host = 4096 and rows = 2 and cols = 3 and type_size = 4
      and layers = 2 and w = "\<lparr>mem = (\<lambda>_. 255), requests = []\<rparr>"]
  note two = inst [THEN conjunct1, THEN mp, OF a, THEN conjunct2, THEN spec, of 17, THEN mp, OF b]
  note three = inst [THEN conjunct2, THEN mp, OF c, THEN conjunct2, THEN spec, of 70,
      THEN mp, OF d]
  show ?thesis
    by (rule conjI [OF a], rule conjI [OF b], rule conjI [OF two], rule conjI [OF c],
        rule conjI [OF d], rule three)
qed

section \<open>Zero-size elements\<close>

text \<open>
  Claim C9, as stated, fails: it is for every \<open>rows > 0\<close>, and for \<open>rows \<ge> 2 ^ 61\<close> the
  size of the pointer table wraps. With \<open>rows = 2 ^ 61 + 1\<close> and \<open>type_size = 0\<close> the block
  requested has 8 bytes, and already row slot 1 begins at offset 8, outside it: the
  pointer table is not inside the allocation.
\<close>

theorem zero_size_table_outside_block:
  "(1 :: size_t) < 2305843009213693953 \<and>
   2 ^ 64 \<le> 8 * unat (2305843009213693953 :: size_t) \<and>
   host_block 4096 (2305843009213693953 * sizeof_ptr + 2305843009213693953 * 5 * 0) \<and>
   requests (snd (lcl_array2d_init 4096 2305843009213693953 5 0 empty_world)) = [(1, 8)] \<and>
   unat ((4096 + sizeof_ptr * 1 :: addr) - 4096) = 8"
  by (simp add: lcl_array2d_init_handle empty_world_def sizeof_ptr_def host_block_def)

text \<open>
  Claim C9, amended. For \<open>type_size = 0\<close>, every \<open>cols\<close> and every \<open>rows\<close> whose pointer
  table fits (\<open>8 * rows < 2 ^ 64\<close>), when the host allocation succeeds:
  \<^verbatim>\<open>lcl_array2d_init\<close> returns the handle of the single block it requested, of exactly
  \<open>8 * rows\<close> bytes (the data region has no bytes), and every row pointer \<open>r < rows\<close> holds
  the same address \<open>handle + 8 * rows\<close>, the end of the pointer table.
\<close>

theorem lcl_array2d_init_zero_size:
  assumes fit: "8 * unat rows < 2 ^ 64"
    and host: "host_block host (rows * sizeof_ptr)"
    and r: "r < rows"
  shows "fst (lcl_array2d_init host rows cols 0 w) = Some host \<and>
     requests (snd (lcl_array2d_init host rows cols 0 w)) = requests w @ [(1, rows * sizeof_ptr)] \<and>
     unat (rows * sizeof_ptr) = 8 * unat rows \<and>
     load_ptr (mem (snd (lcl_array2d_init host rows cols 0 w))) (host + sizeof_ptr * r)
       = host + sizeof_ptr * rows \<and>
     unat (host + sizeof_ptr * rows) = unat host + 8 * unat rows"
proof -
  from host have h0: "host \<noteq> 0" and top: "unat host + unat (rows * sizeof_ptr) < 2 ^ 64"
    by (simp_all add: host_block_def)
  have len: "unat (rows * sizeof_ptr) = 8 * unat rows"
  proof -
    have "rows * sizeof_ptr = (of_nat (8 * unat rows) :: size_t)" by (simp add: sizeof_ptr_def)
    then show ?thesis using fit by (simp only: unat_of_nat) simp
  qed
  from fit have fit': "8 * unat rows \<le> 2 ^ 64" by linarith
  have ptr: "load_ptr (mem (snd (lcl_array2d_init host rows cols 0 w))) (host + sizeof_ptr * r)
      = host + sizeof_ptr * rows"
    using row_pointer_2d [OF fit' h0 r, of cols 0 w] by simp
  have start: "unat (host + sizeof_ptr * rows) = unat host + 8 * unat rows"
  proof (rule unat_at_offset)
    show "host + sizeof_ptr * rows = host + of_nat (8 * unat rows)" by (rule slot_offset)
    show "unat host + 8 * unat rows < 2 ^ 64" using top len by linarith
  qed
  have "fst (lcl_array2d_init host rows cols 0 w) = Some host"
    and "requests (snd (lcl_array2d_init host rows cols 0 w)) = requests w @ [(1, rows * sizeof_ptr)]"
    by (simp_all add: lcl_array2d_init_handle [OF h0])
  with len ptr start show ?thesis by (intro conjI)
qed

theorem lcl_array2d_init_zero_size_witness:
  "8 * unat (3 :: size_t) < 2 ^ 64 \<and> host_block 4096 (3 * sizeof_ptr) \<and> (1 :: size_t) < 3 \<and>
   fst (lcl_array2d_init 4096 3 5 0 empty_world) = Some 4096 \<and>
   requests (snd (lcl_array2d_init 4096 3 5 0 empty_world))
     = requests empty_world @ [(1, 3 * sizeof_ptr)] \<and>
   unat (3 * sizeof_ptr) = 8 * unat (3 :: size_t) \<and>
   load_ptr (mem (snd (lcl_array2d_init 4096 3 5 0 empty_world))) (4096 + sizeof_ptr * 1)
     = 4096 + sizeof_ptr * 3 \<and>
   unat (4096 + sizeof_ptr * 3) = unat (4096 :: addr) + 8 * unat (3 :: size_t)"
proof -
  have a: "8 * unat (3 :: size_t) < 2 ^ 64" and c: "(1 :: size_t) < 3" by simp_all
  have b: "host_block 4096 (3 * sizeof_ptr)" by (simp add: host_block_def sizeof_ptr_def)
  show ?thesis
    by (rule conjI [OF a], rule conjI [OF b], rule conjI [OF c])
       (rule lcl_array2d_init_zero_size [OF a b c, of 5 empty_world])
qed

section \<open>Determinism\<close>








section \<open>Elements of the 2D array\<close>

lemma elem2d_addr_offset:
  assumes "8 * unat rows \<le> 2 ^ 64" "host \<noteq> 0" "r < rows"
  shows "elem2d_addr (mem (snd (lcl_array2d_init host rows cols type_size w))) host type_size r c
       = host + of_nat (8 * unat rows + (unat r * unat cols + unat c) * unat type_size)"
  unfolding elem2d_addr_def row_pointer_2d [OF assms]
  by (simp add: sizeof_ptr_def algebra_simps)

lemma elem_offset_fits:
  assumes "8 * unat rows + unat rows * unat cols * unat type_size < 2 ^ 64"
    and "r < rows" "c < cols"
  shows "8 * unat rows + (unat r * unat cols + unat c) * unat type_size + unat type_size
       \<le> 8 * unat rows + unat rows * unat cols * unat type_size"
proof -
  from assms(2,3) have "unat r < unat rows" "unat c < unat cols"
    by (simp_all add: word_less_nat_alt)
  then have "(unat r * unat cols + unat c) * unat type_size + unat type_size
      \<le> unat rows * unat cols * unat type_size"
    by (rule elem_offset_le)
  then show ?thesis by linarith
qed

lemma elem_offsets_apart:
  assumes "k < (k' :: nat)"
  shows "D + k * T + T \<le> D + k' * T"
proof -
  from assms have "Suc k * T \<le> k' * T" by (intro mult_le_mono1) simp
  then show ?thesis by simp
qed

text \<open>A store of \<open>n\<close> bytes at offset \<open>i\<close> leaves the byte at offset \<open>j\<close> alone when \<open>j\<close>
  lies outside \<open>[i, i + n)\<close> and the stored range does not wrap.\<close>

lemma store_bytes_outside:
  fixes b :: addr
  assumes "i + length bs \<le> 2 ^ 64" "j < 2 ^ 64" "j < i \<or> i + length bs \<le> j"
  shows "store_bytes m (b + of_nat i) bs (b + of_nat j) = m (b + of_nat j)"
proof (cases "bs = []")
  case True
  then show ?thesis by simp
next
  case False
  then have "0 < length bs" by simp
  with assms(1) have i: "i < 2 ^ 64" by linarith
  have "length bs \<le> unat ((b + of_nat j) - (b + of_nat i))"
    using assms unat_offset_diff [OF i assms(2), of b] by (cases "i \<le> j") simp_all
  moreover have "length bs \<le> 2 ^ 64" using assms(1) by linarith
  ultimately show ?thesis by (simp add: store_bytes_at)
qed

lemma of_nat_offset_inject:
  fixes b :: addr
  assumes "i < 2 ^ 64" "j < 2 ^ 64" "b + of_nat i = b + of_nat j"
  shows "i = j"
proof -
  from assms(3) have "(of_nat i :: addr) = of_nat j" by simp
  then have "unat (of_nat i :: addr) = unat (of_nat j :: addr)" by simp
  with assms(1,2) show ?thesis by (simp add: unat_of_nat)
qed


lemma write_elem2d_keeps_table:
  assumes no_overflow: "8 * unat rows + unat rows * unat cols * unat type_size < 2 ^ 64"
    and h0: "host \<noteq> 0" and r: "r < rows" and c: "c < cols"
    and v: "length v = unat type_size" and r': "r' < rows"
  shows "load_ptr (write_elem2d (mem (snd (lcl_array2d_init host rows cols type_size w)))
                     host type_size r c v) (host + sizeof_ptr * r')
       = load_ptr (mem (snd (lcl_array2d_init host rows cols type_size w)))
           (host + sizeof_ptr * r')"
proof (rule load_ptr_cong)
  let ?m = "mem (snd (lcl_array2d_init host rows cols type_size w))"
  let ?o = "8 * unat rows + (unat r * unat cols + unat c) * unat type_size"
  fix j :: nat assume j: "j < 8"
  from no_overflow have fit: "8 * unat rows \<le> 2 ^ 64" by linarith
  from r' have "unat r' < unat rows" by (simp add: word_less_nat_alt)
  with j have lt: "8 * unat r' + j < 8 * unat rows" by linarith
  have fits: "?o + unat type_size \<le> 8 * unat rows + unat rows * unat cols * unat type_size"
    using no_overflow r c by (rule elem_offset_fits)
  have byte: "host + sizeof_ptr * r' + of_nat j = host + of_nat (8 * unat r' + j)"
    by (simp add: sizeof_ptr_def)
  have "store_bytes ?m (host + of_nat ?o) v (host + of_nat (8 * unat r' + j))
      = ?m (host + of_nat (8 * unat r' + j))"
  proof (rule store_bytes_outside)
    show "?o + length v \<le> 2 ^ 64" using fits no_overflow v by linarith
    show "8 * unat r' + j < 2 ^ 64" using lt fit by linarith
    show "8 * unat r' + j < ?o \<or> ?o + length v \<le> 8 * unat r' + j" using lt by linarith
  qed
  then show "write_elem2d ?m host type_size r c v (host + sizeof_ptr * r' + of_nat j)
      = ?m (host + sizeof_ptr * r' + of_nat j)"
    unfolding write_elem2d_def elem2d_addr_offset [OF fit h0 r] byte .
qed

text \<open>
  Claim C6. In a 2D array returned by \<^verbatim>\<open>lcl_array2d_init\<close> (total size without overflow,
  host allocation successful), for \<open>r < rows\<close> and \<open>c < cols\<close>: writing an element value
  (\<open>type_size\<close> bytes) at \<^verbatim>\<open>handle[r][c]\<close> and reading \<^verbatim>\<open>handle[r][c]\<close> back yields the
  value written; every other element \<open>(r', c')\<close> reads as before the write; and no byte
  of element \<open>(r, c)\<close> is a byte of element \<open>(r', c')\<close>.
\<close>

theorem elem2d_round_trip:
  fixes host :: addr and rows cols type_size :: size_t and w :: world and m :: memory
  defines "m \<equiv> mem (snd (lcl_array2d_init host rows cols type_size w))"
  assumes no_overflow: "8 * unat rows + unat rows * unat cols * unat type_size < 2 ^ 64"
    and h0: "host \<noteq> 0" and r: "r < rows" and c: "c < cols"
    and v: "length v = unat type_size"
  shows "read_elem2d (write_elem2d m host type_size r c v) host type_size r c = v \<and>
     (\<forall>r' c'. r' < rows \<and> c' < cols \<and> (r' \<noteq> r \<or> c' \<noteq> c) \<longrightarrow>
        read_elem2d (write_elem2d m host type_size r c v) host type_size r' c'
          = read_elem2d m host type_size r' c' \<and>
        (\<forall>i j. i < unat type_size \<and> j < unat type_size \<longrightarrow>
           elem2d_addr m host type_size r c + of_nat i
             \<noteq> elem2d_addr m host type_size r' c' + of_nat j))"
proof -
  let ?m' = "write_elem2d m host type_size r c v"
  let ?R = "unat rows" and ?C = "unat cols" and ?T = "unat type_size"
  let ?o = "\<lambda>r c. 8 * ?R + (unat r * ?C + unat c) * ?T"
  from no_overflow have fit: "8 * ?R \<le> 2 ^ 64" by linarith
  have addr: "elem2d_addr m host type_size r' c' = host + of_nat (?o r' c')" if "r' < rows" for r' c'
    unfolding m_def using fit h0 that by (rule elem2d_addr_offset)
  have fits: "?o r' c' + ?T \<le> 8 * ?R + ?R * ?C * ?T" if "r' < rows" "c' < cols" for r' c'
    using no_overflow that by (rule elem_offset_fits)
  have same_addr: "elem2d_addr ?m' host type_size r' c' = elem2d_addr m host type_size r' c'"
    if "r' < rows" for r' c'
    unfolding elem2d_addr_def m_def
    by (simp only: write_elem2d_keeps_table [OF no_overflow h0 r c v that])
  have rt: "read_elem2d ?m' host type_size r c = v"
  proof -
    have "unat type_size < 2 ^ 64" using unsigned_less [of type_size] by simp
    then have "length v \<le> 2 ^ 64" using v by linarith
    then have "load_bytes (store_bytes m (elem2d_addr m host type_size r c) v)
            (elem2d_addr m host type_size r c) (length v) = v"
      by (rule load_store_bytes)
    then show ?thesis
      unfolding read_elem2d_def same_addr [OF r] by (simp add: write_elem2d_def v)
  qed
  have other: "read_elem2d ?m' host type_size r' c' = read_elem2d m host type_size r' c' \<and>
        (\<forall>i j. i < ?T \<and> j < ?T \<longrightarrow>
           elem2d_addr m host type_size r c + of_nat i
             \<noteq> elem2d_addr m host type_size r' c' + of_nat j)"
    if r': "r' < rows" and c': "c' < cols" and ne: "r' \<noteq> r \<or> c' \<noteq> c" for r' c'
  proof -
    let ?k = "unat r * ?C + unat c" and ?k' = "unat r' * ?C + unat c'"
    have "?k \<noteq> ?k'"
    proof
      assume "?k = ?k'"
      moreover have "unat c < ?C" "unat c' < ?C"
        using c c' by (simp_all add: word_less_nat_alt)
      ultimately have "unat r = unat r' \<and> unat c = unat c'"
        by (intro index2_inj [where C = ?C])
      with ne show False by (simp add: word_unat_eq_iff)
    qed
    then have sep: "?o r c + ?T \<le> ?o r' c' \<or> ?o r' c' + ?T \<le> ?o r c"
      using elem_offsets_apart [of ?k ?k' "8 * ?R" ?T] elem_offsets_apart [of ?k' ?k "8 * ?R" ?T]
      by linarith
    have top: "?o r c + ?T < 2 ^ 64" "?o r' c' + ?T < 2 ^ 64"
      using fits [OF r c] fits [OF r' c'] no_overflow by linarith+
    have "load_bytes ?m' (host + of_nat (?o r' c')) ?T = load_bytes m (host + of_nat (?o r' c')) ?T"
    proof (rule load_bytes_cong)
      fix j assume j: "j < ?T"
      have "store_bytes m (host + of_nat (?o r c)) v (host + of_nat (?o r' c' + j))
          = m (host + of_nat (?o r' c' + j))"
      proof (rule store_bytes_outside)
        show "?o r c + length v \<le> 2 ^ 64" using top(1) v by linarith
        show "?o r' c' + j < 2 ^ 64" using top(2) j by linarith
        show "?o r' c' + j < ?o r c \<or> ?o r c + length v \<le> ?o r' c' + j"
          using sep j v by linarith
      qed
      then show "?m' (host + of_nat (?o r' c') + of_nat j) = m (host + of_nat (?o r' c') + of_nat j)"
        unfolding write_elem2d_def addr [OF r] by (simp add: add.assoc)
    qed
    then have 1: "read_elem2d ?m' host type_size r' c' = read_elem2d m host type_size r' c'"
      unfolding read_elem2d_def same_addr [OF r'] addr [OF r'] .
    have 2: "elem2d_addr m host type_size r c + of_nat i
        \<noteq> elem2d_addr m host type_size r' c' + of_nat j" if "i < ?T" "j < ?T" for i j
    proof
      assume "elem2d_addr m host type_size r c + of_nat i
          = elem2d_addr m host type_size r' c' + of_nat j"
      then have "host + of_nat (?o r c + i) = host + of_nat (?o r' c' + j)"
        unfolding addr [OF r] addr [OF r'] by (simp add: add.assoc)
      moreover have "?o r c + i < 2 ^ 64" "?o r' c' + j < 2 ^ 64"
        using top that by linarith+
      ultimately have "?o r c + i = ?o r' c' + j"
        by (intro of_nat_offset_inject [where b = host])
      with sep that show False by linarith
    qed
    from 1 2 show ?thesis by blast
  qed
  from rt other show ?thesis by blast
qed


theorem elem2d_round_trip_witness:
  "8 * unat (2 :: size_t) + unat (2 :: size_t) * unat (3 :: size_t) * unat (4 :: size_t) < 2 ^ 64 \<and>
   (4096 :: addr) \<noteq> 0 \<and> (1 :: size_t) < 2 \<and> (2 :: size_t) < 3 \<and>
   length [1, 0, 0, 0 :: byte] = unat (4 :: size_t) \<and>
   ((0 :: size_t) < 2 \<and> (1 :: size_t) < 3 \<and> (0 :: size_t) \<noteq> 1) \<and>
   ((3 :: nat) < unat (4 :: size_t) \<and> (0 :: nat) < unat (4 :: size_t)) \<and>
   read_elem2d (write_elem2d (mem (snd (lcl_array2d_init 4096 2 3 4 empty_world)))
                  4096 4 1 2 [1, 0, 0, 0]) 4096 4 1 2 = [1, 0, 0, 0] \<and>
   read_elem2d (write_elem2d (mem (snd (lcl_array2d_init 4096 2 3 4 empty_world)))
                  4096 4 1 2 [1, 0, 0, 0]) 4096 4 0 1
     = read_elem2d (mem (snd (lcl_array2d_init 4096 2 3 4 empty_world))) 4096 4 0 1 \<and>
   elem2d_addr (mem (snd (lcl_array2d_init 4096 2 3 4 empty_world))) 4096 4 1 2 + of_nat 3
     \<noteq> elem2d_addr (mem (snd (lcl_array2d_init 4096 2 3 4 empty_world))) 4096 4 0 1 + of_nat 0"
proof -
  have a: "8 * unat (2 :: size_t) + unat (2 :: size_t) * unat (3 :: size_t) * unat (4 :: size_t) < 2 ^ 64"
    by simp
  have b: "(4096 :: addr) \<noteq> 0" and c: "(1 :: size_t) < 2" and d: "(2 :: size_t) < 3"
    and e: "length [1, 0, 0, 0 :: byte] = unat (4 :: size_t)"
    and f: "(0 :: size_t) < 2 \<and> (1 :: size_t) < 3 \<and> ((0 :: size_t) \<noteq> 1 \<or> (1 :: size_t) \<noteq> 2)"
    and f': "(0 :: size_t) < 2 \<and> (1 :: size_t) < 3 \<and> (0 :: size_t) \<noteq> 1"
    and g: "(3 :: nat) < unat (4 :: size_t) \<and> (0 :: nat) < unat (4 :: size_t)"
    by simp_all
  note inst = elem2d_round_trip [OF a b c d e, where w = empty_world]
  note oth = inst [THEN conjunct2, THEN spec, of 0, THEN spec, of 1, THEN mp, OF f]
  note sep = oth [THEN conjunct2, THEN spec, of 3, THEN spec, of 0, THEN mp, OF g]
  show ?thesis
    by (rule conjI [OF a], rule conjI [OF b], rule conjI [OF c], rule conjI [OF d],
        rule conjI [OF e], rule conjI [OF f'], rule conjI [OF g],
        rule conjI [OF inst [THEN conjunct1]], rule conjI [OF oth [THEN conjunct1]], rule sep)
qed

section \<open>Degenerate shapes\<close>

lemma zero_fill_nothing: "zero_fill m p 0 = m"
  by (rule ext) (simp add: zero_fill_def)

lemma store_loop_nothing: "store_loop slot val 0 0 m = m"
  by (subst store_loop.simps) simp

lemma lcl_array3d_init_loop2_nothing:
  "lcl_array3d_init_loop2 array cols_start 0 rows cols type_size 0 m = m"
  by (subst lcl_array3d_init_loop2.simps) simp

text \<open>
  Claim C7. Whenever the host hands out a block, the three calls with a zero extent
  return its address as the handle, after exactly one request. For \<open>(0, 5, 4)\<close> and
  \<open>(0, 5, 5, 4)\<close> the request is for 0 bytes and memory is left as it was. For
  \<open>(5, 0, 4)\<close> the request is for 40 bytes, which the 5 row pointers fill; each row pointer
  holds the address of the end of the block, and no byte outside the 40 is written. In all
  three the block is exactly its pointer region: the data region has no bytes, so there is
  no element slot, and no region overlaps another or has negative size.
\<close>

theorem degenerate_shapes:
  assumes "host \<noteq> 0"
  shows "fst (lcl_array2d_init host 0 5 4 w) = Some host \<and>
     requests (snd (lcl_array2d_init host 0 5 4 w)) = requests w @ [(1, 0)] \<and>
     mem (snd (lcl_array2d_init host 0 5 4 w)) = mem w \<and>
     fst (lcl_array2d_init host 5 0 4 w) = Some host \<and>
     requests (snd (lcl_array2d_init host 5 0 4 w)) = requests w @ [(1, 40)] \<and>
     (\<forall>r. r < 5 \<longrightarrow>
        load_ptr (mem (snd (lcl_array2d_init host 5 0 4 w))) (host + sizeof_ptr * r) = host + 40) \<and>
     (\<forall>x. 40 \<le> unat (x - host) \<longrightarrow> mem (snd (lcl_array2d_init host 5 0 4 w)) x = mem w x) \<and>
     fst (lcl_array3d_init host 0 5 5 4 w) = Some host \<and>
     requests (snd (lcl_array3d_init host 0 5 5 4 w)) = requests w @ [(1, 0)] \<and>
     mem (snd (lcl_array3d_init host 0 5 5 4 w)) = mem w"
proof -
  have rows5: "load_ptr (mem (snd (lcl_array2d_init host 5 0 4 w))) (host + sizeof_ptr * r)
      = host + 40" if "r < 5" for r
  proof -
    have "8 * unat (5 :: size_t) \<le> 2 ^ 64" by simp
    from row_pointer_2d [OF this assms that, of 0 4 w] show ?thesis
      by (simp add: sizeof_ptr_def)
  qed
  have frame5: "mem (snd (lcl_array2d_init host 5 0 4 w)) x = mem w x"
    if "40 \<le> unat (x - host)" for x
  proof -
    from that have "8 * unat (5 :: size_t) \<le> unat (x - host)" by simp
    with assms have "mem (snd (lcl_array2d_init host 5 0 4 w)) x
        = zero_fill (mem w) host (5 * sizeof_ptr + 5 * 0 * 4) x"
      by (rule pointer_bytes_only_2d)
    also have "\<dots> = mem w x"
      using that by (simp add: zero_fill_def sizeof_ptr_def word_less_nat_alt)
    finally show ?thesis .
  qed
  have "fst (lcl_array2d_init host 0 5 4 w) = Some host"
    and "requests (snd (lcl_array2d_init host 0 5 4 w)) = requests w @ [(1, 0)]"
    and "mem (snd (lcl_array2d_init host 0 5 4 w)) = mem w"
    and "fst (lcl_array2d_init host 5 0 4 w) = Some host"
    and "requests (snd (lcl_array2d_init host 5 0 4 w)) = requests w @ [(1, 40)]"
    and "fst (lcl_array3d_init host 0 5 5 4 w) = Some host"
    and "requests (snd (lcl_array3d_init host 0 5 5 4 w)) = requests w @ [(1, 0)]"
    and "mem (snd (lcl_array3d_init host 0 5 5 4 w)) = mem w"
    using assms
    by (simp_all add: lcl_array2d_init_handle lcl_array3d_init_handle sizeof_ptr_def
          zero_fill_nothing store_loop_nothing lcl_array3d_init_loop2_nothing)
  with rows5 frame5 show ?thesis by blast
qed

theorem degenerate_shapes_witness:
  "(4096 :: addr) \<noteq> 0 \<and> (3 :: size_t) < 5 \<and> 40 \<le> unat ((5000 :: addr) - 4096) \<and>
   fst (lcl_array2d_init 4096 0 5 4 empty_world) = Some 4096 \<and>
   fst (lcl_array2d_init 4096 5 0 4 empty_world) = Some 4096 \<and>
   load_ptr (mem (snd (lcl_array2d_init 4096 5 0 4 empty_world))) (4096 + sizeof_ptr * 3)
     = 4096 + 40 \<and>
   mem (snd (lcl_array2d_init 4096 5 0 4 empty_world)) 5000 = mem empty_world 5000 \<and>
   fst (lcl_array3d_init 4096 0 5 5 4 empty_world) = Some 4096"
proof -
  have a: "(4096 :: addr) \<noteq> 0" and b: "(3 :: size_t) < 5"
    and c: "40 \<le> unat ((5000 :: addr) - 4096)" by simp_all
  note inst = degenerate_shapes [OF a, of empty_world]
  note p = inst [THEN conjunct2, THEN conjunct2, THEN conjunct2, THEN conjunct2, THEN conjunct2]
  note q = p [THEN conjunct2]
  show ?thesis
    by (rule conjI [OF a], rule conjI [OF b], rule conjI [OF c],
        rule conjI [OF inst [THEN conjunct1]],
        rule conjI [OF inst [THEN conjunct2, THEN conjunct2, THEN conjunct2, THEN conjunct1]],
        rule conjI [OF p [THEN conjunct1, THEN spec, of 3, THEN mp, OF b]],
        rule conjI [OF q [THEN conjunct1, THEN spec, of 5000, THEN mp, OF c]],
        rule q [THEN conjunct2, THEN conjunct1])
qed

section \<open>Alignment\<close>

lemma unat_elem2d:
  assumes no_overflow: "8 * unat rows + unat rows * unat cols * unat type_size < 2 ^ 64"
    and host: "host_block host (rows * sizeof_ptr + rows * cols * type_size)"
    and r: "r < rows" and c: "c < cols"
  shows "unat (elem2d_addr (mem (snd (lcl_array2d_init host rows cols type_size w)))
                 host type_size r c)
       = unat host + (8 * unat rows + (unat r * unat cols + unat c) * unat type_size)"
proof (rule unat_at_offset)
  from host have h0: "host \<noteq> 0"
    and top: "unat host + (8 * unat rows + unat rows * unat cols * unat type_size) < 2 ^ 64"
    by (simp_all add: host_block_def unat_alloc_len_2d [OF no_overflow])
  from no_overflow have fit: "8 * unat rows \<le> 2 ^ 64" by linarith
  show "elem2d_addr (mem (snd (lcl_array2d_init host rows cols type_size w))) host type_size r c
      = host + of_nat (8 * unat rows + (unat r * unat cols + unat c) * unat type_size)"
    using fit h0 r by (rule elem2d_addr_offset)
  have "8 * unat rows + (unat r * unat cols + unat c) * unat type_size + unat type_size
       \<le> 8 * unat rows + unat rows * unat cols * unat type_size"
    using no_overflow r c by (rule elem_offset_fits)
  with top show "unat host
      + (8 * unat rows + (unat r * unat cols + unat c) * unat type_size) < 2 ^ 64"
    by linarith
qed

lemma unat_row_pointer_2d:
  assumes no_overflow: "8 * unat rows + unat rows * unat cols * unat type_size < 2 ^ 64"
    and host: "host_block host (rows * sizeof_ptr + rows * cols * type_size)"
    and r: "r < rows"
  shows "unat (load_ptr (mem (snd (lcl_array2d_init host rows cols type_size w)))
                 (host + sizeof_ptr * r))
       = unat host + (8 * unat rows + unat r * unat cols * unat type_size)"
proof (rule unat_at_offset)
  from host have h0: "host \<noteq> 0"
    and top: "unat host + (8 * unat rows + unat rows * unat cols * unat type_size) < 2 ^ 64"
    by (simp_all add: host_block_def unat_alloc_len_2d [OF no_overflow])
  from no_overflow have fit: "8 * unat rows \<le> 2 ^ 64" by linarith
  show "load_ptr (mem (snd (lcl_array2d_init host rows cols type_size w))) (host + sizeof_ptr * r)
      = host + of_nat (8 * unat rows + unat r * unat cols * unat type_size)"
    unfolding row_pointer_2d [OF fit h0 r] by (simp add: sizeof_ptr_def)
  from r have "unat r < unat rows" by (simp add: word_less_nat_alt)
  then have "unat r * unat cols * unat type_size \<le> unat rows * unat cols * unat type_size"
    by (intro mult_le_mono1) simp
  with top show "unat host + (8 * unat rows + unat r * unat cols * unat type_size) < 2 ^ 64"
    by linarith
qed

lemma unat_row_pointer_3d:
  assumes no_overflow: "8 * unat layers + 8 * (unat layers * unat rows)
           + unat layers * unat rows * unat cols * unat type_size < 2 ^ 64"
    and host: "host_block host
           (layers * sizeof_ptr + layers * rows * sizeof_ptr + layers * rows * cols * type_size)"
    and l: "l < layers" and r: "r < rows"
  shows "unat (load_ptr (mem (snd (lcl_array3d_init host layers rows cols type_size w)))
                 (load_ptr (mem (snd (lcl_array3d_init host layers rows cols type_size w)))
                    (host + sizeof_ptr * l) + sizeof_ptr * r))
       = unat host + (8 * unat layers + 8 * (unat layers * unat rows)
                      + (unat l * unat rows + unat r) * unat cols * unat type_size)"
proof -
  let ?m = "mem (snd (lcl_array3d_init host layers rows cols type_size w))"
  note blk = block_3d [OF no_overflow host]
  have tp: "load_ptr ?m (host + sizeof_ptr * l) = row_slot host layers rows l 0"
    using top_pointer_3d [OF blk(2,1) l] by (simp add: top_slot_def)
  have "load_ptr ?m (host + sizeof_ptr * l) + sizeof_ptr * r = row_slot host layers rows l r"
    unfolding tp by (simp add: row_slot_def)
  then have "load_ptr ?m (load_ptr ?m (host + sizeof_ptr * l) + sizeof_ptr * r)
      = row_val (host + sizeof_ptr * layers + layers * rows * sizeof_ptr) rows cols type_size l r"
    by (simp only: row_pointer_3d [OF blk(2,1) l r])
  then show ?thesis
    by (simp only: unat_row_value [OF blk(3) l r])
qed

text \<open>
  Claim C8. In a block built without overflow in a successful host allocation, the
  pointers the code stores place the data region at an offset from the block start that
  is a multiple of the pointer size: row pointer \<open>r\<close> of the 2D block is
  \<open>handle + 8 * rows + r * cols * type_size\<close>, and second-level pointer \<open>(l, r)\<close> of the 3D
  block is \<open>handle + 8 * (layers + layers * rows) + (l * rows + r) * cols * type_size\<close>.
  Every element address is that start plus a multiple of \<open>type_size\<close>. So when the
  alignment \<open>al\<close> that the element type requires divides the pointer size 8 (and, as for
  every C type, divides \<open>type_size\<close>), and the block itself is aligned to \<open>al\<close> as
  \<^verbatim>\<open>calloc\<close> promises, the address of every element is a multiple of \<open>al\<close>. In particular
  this holds for \<open>al = type_size\<close> when \<open>type_size\<close> divides 8.
\<close>

theorem element_addresses_aligned:
  assumes "al dvd 8" and "al dvd unat type_size" and "al dvd unat host"
  shows "(8 * unat rows + unat rows * unat cols * unat type_size < 2 ^ 64 \<and>
      host_block host (rows * sizeof_ptr + rows * cols * type_size) \<longrightarrow>
        (\<forall>r. r < rows \<longrightarrow>
           unat (load_ptr (mem (snd (lcl_array2d_init host rows cols type_size w)))
                   (host + sizeof_ptr * r))
           = unat host + 8 * unat rows + unat r * unat cols * unat type_size) \<and>
        (\<forall>r c. r < rows \<and> c < cols \<longrightarrow>
           unat (elem2d_addr (mem (snd (lcl_array2d_init host rows cols type_size w)))
                   host type_size r c)
           = unat host + 8 * unat rows + (unat r * unat cols + unat c) * unat type_size \<and>
           al dvd unat (elem2d_addr (mem (snd (lcl_array2d_init host rows cols type_size w)))
                          host type_size r c))) \<and>
     (8 * unat layers + 8 * (unat layers * unat rows)
        + unat layers * unat rows * unat cols * unat type_size < 2 ^ 64 \<and>
      host_block host
        (layers * sizeof_ptr + layers * rows * sizeof_ptr + layers * rows * cols * type_size) \<longrightarrow>
        (\<forall>l r. l < layers \<and> r < rows \<longrightarrow>
           unat (load_ptr (mem (snd (lcl_array3d_init host layers rows cols type_size w)))
                   (load_ptr (mem (snd (lcl_array3d_init host layers rows cols type_size w)))
                      (host + sizeof_ptr * l) + sizeof_ptr * r))
           = unat host + 8 * (unat layers + unat layers * unat rows)
             + (unat l * unat rows + unat r) * unat cols * unat type_size) \<and>
        (\<forall>l r c. l < layers \<and> r < rows \<and> c < cols \<longrightarrow>
           unat (elem3d_addr (mem (snd (lcl_array3d_init host layers rows cols type_size w)))
                   host type_size l r c)
           = unat host + 8 * (unat layers + unat layers * unat rows)
             + ((unat l * unat rows + unat r) * unat cols + unat c) * unat type_size \<and>
           al dvd unat (elem3d_addr (mem (snd (lcl_array3d_init host layers rows cols type_size w)))
                          host type_size l r c)))"
proof (intro conjI impI allI; (elim conjE)?)
  assume no: "8 * unat rows + unat rows * unat cols * unat type_size < 2 ^ 64"
    and hb: "host_block host (rows * sizeof_ptr + rows * cols * type_size)"
  {
    fix r assume "r < rows"
    with no hb show "unat (load_ptr (mem (snd (lcl_array2d_init host rows cols type_size w)))
                   (host + sizeof_ptr * r))
           = unat host + 8 * unat rows + unat r * unat cols * unat type_size"
      by (simp only: unat_row_pointer_2d add.assoc)
  }
  fix r c assume rc: "r < rows" "c < cols"
  with no hb have e: "unat (elem2d_addr (mem (snd (lcl_array2d_init host rows cols type_size w)))
                 host type_size r c)
       = unat host + (8 * unat rows + (unat r * unat cols + unat c) * unat type_size)"
    by (rule unat_elem2d)
  then show "unat (elem2d_addr (mem (snd (lcl_array2d_init host rows cols type_size w)))
                 host type_size r c)
       = unat host + 8 * unat rows + (unat r * unat cols + unat c) * unat type_size"
    by (simp only: add.assoc)
  from e show "al dvd unat (elem2d_addr (mem (snd (lcl_array2d_init host rows cols type_size w)))
                 host type_size r c)"
    using assms by (simp add: dvd_add dvd_mult dvd_mult2)
next
  assume no: "8 * unat layers + 8 * (unat layers * unat rows)
        + unat layers * unat rows * unat cols * unat type_size < 2 ^ 64"
    and hb: "host_block host
        (layers * sizeof_ptr + layers * rows * sizeof_ptr + layers * rows * cols * type_size)"
  {
    fix l r assume "l < layers" "r < rows"
    with no hb have "unat (load_ptr (mem (snd (lcl_array3d_init host layers rows cols type_size w)))
                   (load_ptr (mem (snd (lcl_array3d_init host layers rows cols type_size w)))
                      (host + sizeof_ptr * l) + sizeof_ptr * r))
           = unat host + (8 * unat layers + 8 * (unat layers * unat rows)
                      + (unat l * unat rows + unat r) * unat cols * unat type_size)"
      by (rule unat_row_pointer_3d)
    then show "unat (load_ptr (mem (snd (lcl_array3d_init host layers rows cols type_size w)))
                   (load_ptr (mem (snd (lcl_array3d_init host layers rows cols type_size w)))
                      (host + sizeof_ptr * l) + sizeof_ptr * r))
           = unat host + 8 * (unat layers + unat layers * unat rows)
             + (unat l * unat rows + unat r) * unat cols * unat type_size"
      by (simp only: add.assoc distrib_left)
  }
  fix l r c assume "l < layers" "r < rows" "c < cols"
  with no hb have e: "unat (elem3d_addr (mem (snd (lcl_array3d_init host layers rows cols type_size w)))
                 host type_size l r c)
       = unat host + (8 * unat layers + 8 * (unat layers * unat rows)
                      + ((unat l * unat rows + unat r) * unat cols + unat c) * unat type_size)"
    by (rule unat_elem3d)
  then show "unat (elem3d_addr (mem (snd (lcl_array3d_init host layers rows cols type_size w)))
                 host type_size l r c)
       = unat host + 8 * (unat layers + unat layers * unat rows)
             + ((unat l * unat rows + unat r) * unat cols + unat c) * unat type_size"
    by (simp only: add.assoc distrib_left)
  from e show "al dvd unat (elem3d_addr (mem (snd (lcl_array3d_init host layers rows cols type_size w)))
                 host type_size l r c)"
    using assms by (simp add: dvd_add dvd_mult dvd_mult2)
qed

theorem element_addresses_aligned_witness:
  "(4 :: nat) dvd 8 \<and> 4 dvd unat (4 :: size_t) \<and> 4 dvd unat (4096 :: addr) \<and>
   (8 * unat (2 :: size_t) + unat (2 :: size_t) * unat (3 :: size_t) * unat (4 :: size_t) < 2 ^ 64 \<and>
    host_block 4096 (2 * sizeof_ptr + 2 * 3 * 4)) \<and>
   ((1 :: size_t) < 2 \<and> (2 :: size_t) < 3) \<and>
   unat (load_ptr (mem (snd (lcl_array2d_init 4096 2 3 4 empty_world))) (4096 + sizeof_ptr * 1))
     = unat (4096 :: addr) + 8 * unat (2 :: size_t)
       + unat (1 :: size_t) * unat (3 :: size_t) * unat (4 :: size_t) \<and>
   unat (elem2d_addr (mem (snd (lcl_array2d_init 4096 2 3 4 empty_world))) 4096 4 1 2)
     = unat (4096 :: addr) + 8 * unat (2 :: size_t)
       + (unat (1 :: size_t) * unat (3 :: size_t) + unat (2 :: size_t)) * unat (4 :: size_t) \<and>
   4 dvd unat (elem2d_addr (mem (snd (lcl_array2d_init 4096 2 3 4 empty_world))) 4096 4 1 2) \<and>
   (8 * unat (2 :: size_t) + 8 * (unat (2 :: size_t) * unat (2 :: size_t))
      + unat (2 :: size_t) * unat (2 :: size_t) * unat (3 :: size_t) * unat (4 :: size_t) < 2 ^ 64 \<and>
    host_block 4096 (2 * sizeof_ptr + 2 * 2 * sizeof_ptr + 2 * 2 * 3 * 4)) \<and>
   ((1 :: size_t) < 2 \<and> (1 :: size_t) < 2 \<and> (2 :: size_t) < 3) \<and>
   unat (elem3d_addr (mem (snd (lcl_array3d_init 4096 2 2 3 4 empty_world))) 4096 4 1 1 2)
     = unat (4096 :: addr) + 8 * (unat (2 :: size_t) + unat (2 :: size_t) * unat (2 :: size_t))
       + ((unat (1 :: size_t) * unat (2 :: size_t) + unat (1 :: size_t)) * unat (3 :: size_t)
          + unat (2 :: size_t)) * unat (4 :: size_t) \<and>
   4 dvd unat (elem3d_addr (mem (snd (lcl_array3d_init 4096 2 2 3 4 empty_world))) 4096 4 1 1 2)"
proof -
  have a: "(4 :: nat) dvd 8" and b: "4 dvd unat (4 :: size_t)" and c: "4 dvd unat (4096 :: addr)"
    by simp_all
  have d: "8 * unat (2 :: size_t) + unat (2 :: size_t) * unat (3 :: size_t) * unat (4 :: size_t) < 2 ^ 64 \<and>
    host_block 4096 (2 * sizeof_ptr + 2 * 3 * 4)"
    by (simp add: host_block_def sizeof_ptr_def)
  have e: "(1 :: size_t) < 2 \<and> (2 :: size_t) < 3" by simp
  have e1: "(1 :: size_t) < 2" by simp
  have f: "8 * unat (2 :: size_t) + 8 * (unat (2 :: size_t) * unat (2 :: size_t))
      + unat (2 :: size_t) * unat (2 :: size_t) * unat (3 :: size_t) * unat (4 :: size_t) < 2 ^ 64 \<and>
    host_block 4096 (2 * sizeof_ptr + 2 * 2 * sizeof_ptr + 2 * 2 * 3 * 4)"
    by (simp add: host_block_def sizeof_ptr_def)
  have g: "(1 :: size_t) < 2 \<and> (1 :: size_t) < 2 \<and> (2 :: size_t) < 3" by simp
  note inst = element_addresses_aligned [OF a b c, where rows = 2 and cols = 3 and layers = 2
      and w = empty_world]
  note two = inst [THEN conjunct1, THEN mp, OF d]
  note rowp = two [THEN conjunct1, THEN spec, of 1, THEN mp, OF e1]
  note el2 = two [THEN conjunct2, THEN spec, of 1, THEN spec, of 2, THEN mp, OF e]
  note el3 = inst [THEN conjunct2, THEN mp, OF f, THEN conjunct2, THEN spec, of 1,
      THEN spec, of 1, THEN spec, of 2, THEN mp, OF g]
  show ?thesis
    by (rule conjI [OF a], rule conjI [OF b], rule conjI [OF c], rule conjI [OF d],
        rule conjI [OF e], rule conjI [OF rowp], rule conjI [OF el2 [THEN conjunct1]],
        rule conjI [OF el2 [THEN conjunct2]], rule conjI [OF f], rule conjI [OF g],
        rule conjI [OF el3 [THEN conjunct1]], rule el3 [THEN conjunct2])
qed

end
